theory Spec2Isabelle
  imports Complex_Main
begin

section \<open>ATO optimizer: overview\<close>

text \<open>
  Shallow embedding of \<^verbatim>\<open>src/ATO/utils/ATO_Optimizer.cpp\<close>.  A C++ \<^verbatim>\<open>double\<close> is a value
  of the type \<open>double\<close> of the next section, with its infinities and its NaN, so that a
  quotient by zero or a comparison with a NaN goes the way it goes in the program.  A
  C++ \<^verbatim>\<open>int\<close> is an \<^typ>\<open>int\<close> (the counters of this file stay far below the 32-bit
  limit), a raw array of \<^verbatim>\<open>numOptDofs\<close> doubles a list.  Member functions that mutate
  their object take the object and return the new one; a \<^verbatim>\<open>TEUCHOS_TEST_FOR_EXCEPTION\<close>
  is the \<open>Inl\<close> branch of a sum.  Output to \<^verbatim>\<open>std::cout\<close> changes no state and is left
  out.
\<close>

section \<open>Doubles\<close>

text \<open>
  A C++ \<^verbatim>\<open>double\<close>: a finite value, an infinity or a NaN.  \<open>Fin x\<close> is the double of the
  exact value \<open>x\<close> (\<open>Fin 0\<close> is the positive zero), \<open>NegZero\<close> the negative zero.  The
  operations follow IEEE 754 on the infinities, the NaN and the zeros; on finite values
  they are exact: the model has no rounding, no overflow and no underflow.
\<close>

datatype double = Fin real | NegZero | PInf | MInf | NaN

text \<open>A double is finite (\<open>fin\<close>) when it is neither an infinity nor a NaN; \<open>rv\<close> is the
  value of a finite double, \<open>neg\<close> the sign bit of a double that is not a NaN.\<close>

fun fin :: "double \<Rightarrow> bool" where
  "fin (Fin x) = True"
| "fin NegZero = True"
| "fin PInf = False"
| "fin MInf = False"
| "fin NaN = False"

fun rv :: "double \<Rightarrow> real" where
  "rv (Fin x) = x"
| "rv NegZero = 0"
| "rv PInf = 0"
| "rv MInf = 0"
| "rv NaN = 0"

fun neg :: "double \<Rightarrow> bool" where
  "neg (Fin x) = (x < 0)"
| "neg NegZero = True"
| "neg PInf = False"
| "neg MInf = True"
| "neg NaN = False"

definition isinf :: "double \<Rightarrow> bool" where
  "isinf a = (a = PInf \<or> a = MInf)"

definition iszero :: "double \<Rightarrow> bool" where
  "iszero a = (a = Fin 0 \<or> a = NegZero)"

text \<open>The zero, the infinity and the finite value \<open>x\<close> of sign bit \<open>s\<close> (the sign bit
  matters to a finite value only when it is zero).\<close>

definition zero_s :: "bool \<Rightarrow> double" where
  "zero_s s = (if s then NegZero else Fin 0)"

definition inf_s :: "bool \<Rightarrow> double" where
  "inf_s s = (if s then MInf else PInf)"

definition fin_s :: "bool \<Rightarrow> real \<Rightarrow> double" where
  "fin_s s x = (if x = 0 then zero_s s else Fin x)"

text \<open>The arithmetic: \<^verbatim>\<open>a + b\<close>, \<^verbatim>\<open>-a\<close>, \<^verbatim>\<open>a - b\<close>, \<^verbatim>\<open>a * b\<close>, \<^verbatim>\<open>a / b\<close> and \<^verbatim>\<open>fabs(a)\<close>.  An exact
  sum that is zero is the negative zero only when both terms are.\<close>

instantiation double :: plus
begin
definition plus_double :: "double \<Rightarrow> double \<Rightarrow> double" where
  "plus_double a b =
     (if a = NaN \<or> b = NaN then NaN
      else if isinf a then (if isinf b \<and> a \<noteq> b then NaN else a)
      else if isinf b then b
      else fin_s (neg a \<and> neg b) (rv a + rv b))"
instance ..
end

instantiation double :: uminus
begin
definition uminus_double :: "double \<Rightarrow> double" where
  "uminus_double a =
     (case a of
        Fin x \<Rightarrow> (if x = 0 then NegZero else Fin (- x))
      | NegZero \<Rightarrow> Fin 0
      | PInf \<Rightarrow> MInf
      | MInf \<Rightarrow> PInf
      | NaN \<Rightarrow> NaN)"
instance ..
end

instantiation double :: minus
begin
definition minus_double :: "double \<Rightarrow> double \<Rightarrow> double" where
  "minus_double a b = a + (- b)"
instance ..
end

instantiation double :: times
begin
definition times_double :: "double \<Rightarrow> double \<Rightarrow> double" where
  "times_double a b =
     (if a = NaN \<or> b = NaN then NaN
      else if isinf a \<or> isinf b
           then (if iszero a \<or> iszero b then NaN else inf_s (neg a \<noteq> neg b))
      else fin_s (neg a \<noteq> neg b) (rv a * rv b))"
instance ..
end

instantiation double :: divide
begin
definition divide_double :: "double \<Rightarrow> double \<Rightarrow> double" where
  "divide_double a b =
     (if a = NaN \<or> b = NaN then NaN
      else if isinf a then (if isinf b then NaN else inf_s (neg a \<noteq> neg b))
      else if isinf b then zero_s (neg a \<noteq> neg b)
      else if iszero b then (if iszero a then NaN else inf_s (neg a \<noteq> neg b))
      else fin_s (neg a \<noteq> neg b) (rv a / rv b))"
instance ..
end

instantiation double :: inverse
begin
definition inverse_double :: "double \<Rightarrow> double" where
  "inverse_double a = divide (Fin 1) a"
instance ..
end

instantiation double :: abs
begin
definition abs_double :: "double \<Rightarrow> double" where
  "abs_double a =
     (case a of
        Fin x \<Rightarrow> Fin \<bar>x\<bar>
      | NegZero \<Rightarrow> Fin 0
      | PInf \<Rightarrow> PInf
      | MInf \<Rightarrow> PInf
      | NaN \<Rightarrow> NaN)"
instance ..
end

text \<open>The comparisons \<^verbatim>\<open>a < b\<close> and \<^verbatim>\<open>a <= b\<close> (so \<^verbatim>\<open>a > b\<close> is \<open>b < a\<close>): false when an
  operand is a NaN; the two zeros are equal.\<close>

instantiation double :: ord
begin
definition less_double :: "double \<Rightarrow> double \<Rightarrow> bool" where
  "less_double a b =
     (if a = NaN \<or> b = NaN then False
      else if a = PInf \<or> b = MInf then False
      else if a = MInf \<or> b = PInf then True
      else rv a < rv b)"
definition less_eq_double :: "double \<Rightarrow> double \<Rightarrow> bool" where
  "less_eq_double a b =
     (if a = NaN \<or> b = NaN then False
      else if a = MInf \<or> b = PInf then True
      else if a = PInf \<or> b = MInf then False
      else rv a \<le> rv b)"
instance ..
end

text \<open>\<^verbatim>\<open>a == b\<close> and \<^verbatim>\<open>a != b\<close>: a NaN equals nothing, the two zeros are equal.\<close>

definition feq :: "double \<Rightarrow> double \<Rightarrow> bool" where
  "feq a b = (a \<noteq> NaN \<and> b \<noteq> NaN \<and> (a = b \<or> fin a \<and> fin b \<and> rv a = rv b))"

definition fne :: "double \<Rightarrow> double \<Rightarrow> bool" where
  "fne a b = (\<not> feq a b)"

text \<open>\<^verbatim>\<open>sqrt(a)\<close>.\<close>

definition dsqrt :: "double \<Rightarrow> double" where
  "dsqrt a =
     (case a of
        Fin x \<Rightarrow> (if x < 0 then NaN else Fin (sqrt x))
      | NegZero \<Rightarrow> NegZero
      | PInf \<Rightarrow> PInf
      | MInf \<Rightarrow> NaN
      | NaN \<Rightarrow> NaN)"

text \<open>An accumulation loop \<^verbatim>\<open>s = 0.0; for(...) s += x[i];\<close> over the values \<open>xs\<close>.\<close>

definition dsum :: "double list \<Rightarrow> double" where
  "dsum xs = foldl (+) (Fin 0) xs"

section \<open>Data model\<close>

text \<open>The exceptions of the program.\<close>

datatype error = InvalidParameter | InvalidParameterName | InvalidParameterType

text \<open>The topology object, as far as the optimizer reads it: \<^verbatim>\<open>getBounds()\<close> gives
  \<open>(minDensity, maxDensity)\<close>, \<^verbatim>\<open>getInitialValue()\<close> the initial density.\<close>

record Topology =
  getBounds :: "double \<times> double"
  getInitialValue :: double

text \<open>\<^verbatim>\<open>Teuchos::ParameterList\<close>: named, typed entries.  \<^verbatim>\<open>isType<T>(name)\<close> holds when
  the entry exists with type \<open>T\<close>; \<^verbatim>\<open>get<T>(name)\<close> throws when the entry is missing or
  has another type.\<close>

datatype ParameterEntry =
    PDouble double
  | PInt int
  | PBool bool
  | PString string
  | PTopology Topology
  | PSublist "(string \<times> ParameterEntry) list"

type_synonym ParameterList = "(string \<times> ParameterEntry) list"

definition isType_double :: "ParameterList \<Rightarrow> string \<Rightarrow> bool" where
  "isType_double pl name = (case map_of pl name of Some (PDouble _) \<Rightarrow> True | _ \<Rightarrow> False)"

definition isType_int :: "ParameterList \<Rightarrow> string \<Rightarrow> bool" where
  "isType_int pl name = (case map_of pl name of Some (PInt _) \<Rightarrow> True | _ \<Rightarrow> False)"


definition isType_string :: "ParameterList \<Rightarrow> string \<Rightarrow> bool" where
  "isType_string pl name = (case map_of pl name of Some (PString _) \<Rightarrow> True | _ \<Rightarrow> False)"


definition get_double :: "ParameterList \<Rightarrow> string \<Rightarrow> error + double" where
  "get_double pl name =
     (case map_of pl name of
        None \<Rightarrow> Inl InvalidParameterName
      | Some (PDouble v) \<Rightarrow> Inr v
      | Some _ \<Rightarrow> Inl InvalidParameterType)"

definition get_int :: "ParameterList \<Rightarrow> string \<Rightarrow> error + int" where
  "get_int pl name =
     (case map_of pl name of
        None \<Rightarrow> Inl InvalidParameterName
      | Some (PInt v) \<Rightarrow> Inr v
      | Some _ \<Rightarrow> Inl InvalidParameterType)"


definition get_string :: "ParameterList \<Rightarrow> string \<Rightarrow> error + string" where
  "get_string pl name =
     (case map_of pl name of
        None \<Rightarrow> Inl InvalidParameterName
      | Some (PString v) \<Rightarrow> Inr v
      | Some _ \<Rightarrow> Inl InvalidParameterType)"



text \<open>The communicator as one rank sees it: its rank, the number of ranks, and the global
  sum \<^verbatim>\<open>SumAll\<close> that a local value is reduced to.\<close>

record Comm =
  MyPID :: int
  NumProc :: int
  SumAll :: "double \<Rightarrow> double"


section \<open>ConvergenceTest\<close>

text \<open>
  The criteria (subclasses of \<^verbatim>\<open>ConTest\<close>), each with its members.  The running
  criteria keep the history \<open>dF\<close>, the running sum \<open>runningDF\<close> and the window \<open>nave\<close>:
  \<^item> \<open>AbsDeltaP conValue\<close>, \<open>AbsDeltaF conValue\<close>;
  \<^item> \<open>AbsRunningDF conValue dF runningDF nave\<close>;
  \<^item> \<open>RelDeltaP conValue p0\<close>, \<open>RelDeltaF conValue f0\<close>;
  \<^item> \<open>RelRunningDF conValue f0 dF runningDF nave\<close>.
\<close>

datatype ConTest =
    AbsDeltaP double
  | AbsDeltaF double
  | AbsRunningDF double "double list" double nat
  | RelDeltaP double double
  | RelDeltaF double double
  | RelRunningDF double double "double list" double nat

text \<open>Modelled from the spec: the class declarations (\<^verbatim>\<open>ATO_Optimizer.hpp\<close>) are not
  among the sources.  The spec fixes the window of a running criterion at 10 samples; a
  new criterion has an empty history, a running sum of zero and a baseline of zero until
  \<open>initNorm\<close> captures it.\<close>

definition new_AbsRunningDF :: "double \<Rightarrow> ConTest" where
  "new_AbsRunningDF conValue = AbsRunningDF conValue [] (Fin 0) 10"

definition new_RelRunningDF :: "double \<Rightarrow> ConTest" where
  "new_RelRunningDF conValue = RelRunningDF conValue (Fin 0) [] (Fin 0) 10"

definition new_RelDeltaP :: "double \<Rightarrow> ConTest" where
  "new_RelDeltaP conValue = RelDeltaP conValue (Fin 0)"

definition new_RelDeltaF :: "double \<Rightarrow> ConTest" where
  "new_RelDeltaF conValue = RelDeltaF conValue (Fin 0)"

text \<open>Modelled from the spec: \<^verbatim>\<open>ConTest::initNorm\<close> of each criterion is declared in the
  header, which is not among the sources.  The relative criteria store the baseline
  (\<open>p0\<close> for the design norm, \<open>f0\<close> for the objective); the others ignore it.\<close>

fun ConTest_initNorm :: "ConTest \<Rightarrow> double \<Rightarrow> double \<Rightarrow> ConTest" where
  "ConTest_initNorm (RelDeltaP conValue _) f pnorm = RelDeltaP conValue pnorm"
| "ConTest_initNorm (RelDeltaF conValue _) f pnorm = RelDeltaF conValue f"
| "ConTest_initNorm (RelRunningDF conValue _ dF runningDF nave) f pnorm =
     RelRunningDF conValue f dF runningDF nave"
| "ConTest_initNorm t f pnorm = t"

text \<open>\<^verbatim>\<open>passed(delta_f, delta_p, write)\<close> of each criterion: the status and the criterion
  after the call.  \<^verbatim>\<open>*(dF.end()-nave)\<close> is the entry at index \<open>size - nave\<close>,
  \<^verbatim>\<open>dF[lastVal-nave]\<close> the one at index \<open>size - 1 - nave\<close>; both are read only when
  \<open>size > nave\<close>.\<close>

fun passed :: "ConTest \<Rightarrow> double \<Rightarrow> double \<Rightarrow> bool \<times> ConTest" where
  "passed (AbsDeltaP conValue) delta_f delta_p =
     (\<bar>delta_p\<bar> < conValue, AbsDeltaP conValue)"
| "passed (AbsDeltaF conValue) delta_f delta_p =
     (\<bar>delta_f\<bar> < conValue, AbsDeltaF conValue)"
| "passed (AbsRunningDF conValue dF0 runningDF0 nave) delta_f delta_p =
     (let dF = dF0 @ [delta_f];
          runningDF1 = runningDF0 + delta_f;
          runningDF = (if length dF > nave then runningDF1 - dF ! (length dF - nave)
                       else runningDF1)
      in (runningDF < conValue, AbsRunningDF conValue dF runningDF nave))"
| "passed (RelDeltaP conValue p0) delta_f delta_p =
     ((if fne p0 (Fin 0) then \<bar>delta_p / p0\<bar> < conValue else False), RelDeltaP conValue p0)"
| "passed (RelDeltaF conValue f0) delta_f delta_p =
     ((if fne f0 (Fin 0) then \<bar>delta_f / f0\<bar> < conValue else False), RelDeltaF conValue f0)"
| "passed (RelRunningDF conValue f0 dF0 runningDF0 nave) delta_f delta_p =
     (let dF = dF0 @ [delta_f];
          runningDF1 = runningDF0 + delta_f;
          nvals0 = length dF;
          lastVal = nvals0 - 1;
          runningDF = (if nvals0 > nave then runningDF1 - dF ! (lastVal - nave)
                       else runningDF1);
          nvals = (if nvals0 > nave then nave else nvals0)
      in ((if fne f0 (Fin 0) then \<bar>runningDF / f0\<bar> / Fin (real nvals) < conValue else False),
          RelRunningDF conValue f0 dF runningDF nave))"

datatype ComboType = AND | OR

record ConvergenceTest =
  minIterations :: int
  maxIterations :: int
  comboType :: ComboType
  conTests :: "ConTest list"

definition initNorm :: "ConvergenceTest \<Rightarrow> double \<Rightarrow> double \<Rightarrow> ConvergenceTest" where
  "initNorm ct f pnorm = ct\<lparr>conTests := map (\<lambda>t. ConTest_initNorm t f pnorm) (conTests ct)\<rparr>"

text \<open>The loop of \<open>isConverged\<close> over the criteria, in order: the results pushed and the
  criteria after their calls.\<close>

fun passed_all :: "ConTest list \<Rightarrow> double \<Rightarrow> double \<Rightarrow> bool list \<times> ConTest list" where
  "passed_all [] delta_f delta_p = ([], [])"
| "passed_all (t # ts) delta_f delta_p =
     (case passed t delta_f delta_p of
        (r, t') \<Rightarrow> (case passed_all ts delta_f delta_p of
                      (rs, ts') \<Rightarrow> (r # rs, t' # ts')))"

definition isConverged ::
  "ConvergenceTest \<Rightarrow> double \<Rightarrow> double \<Rightarrow> int \<Rightarrow> int \<Rightarrow> bool \<times> ConvergenceTest" where
  "isConverged ct delta_f delta_p iter myPID =
     (if iter = 0 then (False, ct)
      else
        (case passed_all (conTests ct) delta_f delta_p of
           (results, tests') \<Rightarrow>
             (let converged0 = (case comboType ct of
                                  AND \<Rightarrow> False \<notin> set results
                                | OR \<Rightarrow> True \<in> set results);
                  converged1 = (if iter < minIterations ct then False else converged0);
                  converged = (if iter \<ge> maxIterations ct \<and> \<not> converged1 then True
                               else converged1)
              in (converged, ct\<lparr>conTests := tests'\<rparr>))))"

text \<open>\<^verbatim>\<open>::tolower\<close> in the C locale, applied to every character of the combo type.\<close>

definition tolower :: "char \<Rightarrow> char" where
  "tolower c =
     (if 65 \<le> (of_char c :: nat) \<and> (of_char c :: nat) \<le> 90
      then char_of ((of_char c :: nat) + 32) else c)"

definition opt_criterion :: "ParameterList \<Rightarrow> string \<Rightarrow> (double \<Rightarrow> ConTest) \<Rightarrow> ConTest list" where
  "opt_criterion convParams name mk =
     (if isType_double convParams name
      then (case get_double convParams name of Inr conValue \<Rightarrow> [mk conValue] | Inl _ \<Rightarrow> [])
      else [])"

definition ConvergenceTest_ctor :: "ParameterList \<Rightarrow> error + ConvergenceTest" where
  "ConvergenceTest_ctor convParams =
     (let minIt = (if isType_int convParams ''Minimum Iterations''
                   then (case get_int convParams ''Minimum Iterations'' of
                           Inr v \<Rightarrow> v | Inl _ \<Rightarrow> 0)
                   else 0)
      in if \<not> isType_int convParams ''Maximum Iterations'' then Inl InvalidParameter
         else
           (case get_int convParams ''Maximum Iterations'' of
              Inl e \<Rightarrow> Inl e
            | Inr maxIt \<Rightarrow>
                (case (if isType_string convParams ''Combo Type''
                       then (case get_string convParams ''Combo Type'' of
                               Inl e \<Rightarrow> Inl e
                             | Inr combo0 \<Rightarrow>
                                 (let combo = map tolower combo0
                                  in if combo = ''or'' then Inr OR
                                     else if combo = ''and'' then Inr AND
                                     else Inl InvalidParameter))
                       else Inr OR) of
                   Inl e \<Rightarrow> Inl e
                 | Inr ctype \<Rightarrow>
                     Inr \<lparr>minIterations = minIt, maxIterations = maxIt, comboType = ctype,
                          conTests =
                            opt_criterion convParams ''Relative Topology Change'' new_RelDeltaP
                            @ opt_criterion convParams ''Absolute Topology Change'' AbsDeltaP
                            @ opt_criterion convParams ''Relative Objective Change'' new_RelDeltaF
                            @ opt_criterion convParams ''Absolute Objective Change'' AbsDeltaF
                            @ opt_criterion convParams
                                ''Relative Objective Running Average Change'' new_RelRunningDF
                            @ opt_criterion convParams
                                ''Absolute Objective Running Average Change'' new_AbsRunningDF\<rparr>)))"

text \<open>Feeding a criterion a sequence of objective deltas, one call of \<open>passed\<close> each (the
  design delta plays no part in a running criterion and is passed as given).\<close>

fun feed :: "ConTest \<Rightarrow> (double \<times> double) list \<Rightarrow> ConTest" where
  "feed t [] = t"
| "feed t (d # ds) = feed (snd (passed t (fst d) (snd d))) ds"

fun runningDF_of :: "ConTest \<Rightarrow> double" where
  "runningDF_of (AbsRunningDF _ _ r _) = r"
| "runningDF_of (RelRunningDF _ _ _ r _) = r"
| "runningDF_of _ = Fin 0"


text \<open>The six criterion parameters of the constructor.\<close>

definition criterionNames :: "string list" where
  "criterionNames =
     [''Relative Topology Change'', ''Absolute Topology Change'',
      ''Relative Objective Change'', ''Absolute Objective Change'',
      ''Relative Objective Running Average Change'',
      ''Absolute Objective Running Average Change'']"


section \<open>Optimizer\<close>

text \<open>
  The solver interface the optimizer calls (an external collaborator), as functions of
  the design vector:
  \<^item> \<open>GetNumOptDofs\<close>;
  \<^item> \<open>ComputeVolume_ref\<close> for \<^verbatim>\<open>ComputeVolume(_optVolume)\<close>;
  \<^item> \<open>ComputeVolume\<close> for \<^verbatim>\<open>ComputeVolume(p, vol)\<close>;
  \<^item> \<open>ComputeVolume_grad\<close> for \<^verbatim>\<open>ComputeVolume(p, vol, dvdp)\<close>;
  \<^item> \<open>Compute\<close> for \<^verbatim>\<open>Compute(p, f, dfdp, g)\<close>;
  \<^item> \<open>Compute_adjoint\<close> for \<^verbatim>\<open>Compute(p, f, dfdp, g, dgdp)\<close>;
  \<^item> \<open>ComputeObjective\<close> for \<^verbatim>\<open>ComputeObjective(p, f, dfdp)\<close>.
\<close>

record SolverInterface =
  GetNumOptDofs :: nat
  ComputeVolume_ref :: double
  ComputeVolume :: "double list \<Rightarrow> double"
  ComputeVolume_grad :: "double list \<Rightarrow> double \<times> double list"
  Compute :: "double list \<Rightarrow> double \<times> double list \<times> double"
  Compute_adjoint :: "double list \<Rightarrow> double \<times> double list \<times> double \<times> double list"
  ComputeObjective :: "double list \<Rightarrow> double \<times> double list"

text \<open>
  The members the two optimizers share.  The C++ members \<^verbatim>\<open>p\<close>, \<^verbatim>\<open>f\<close> and \<^verbatim>\<open>g\<close> are
  the fields \<open>p_cur\<close>, \<open>f_cur\<close> and \<open>g_cur\<close>; a member \<^verbatim>\<open>_name\<close> is the field \<open>name\<close>.
\<close>

record Optimizer =
  topology :: Topology
  convergenceChecker :: ConvergenceTest
  numOptDofs :: nat
  p_cur :: "double list"
  p_last :: "double list"
  f_cur :: double
  f_last :: double
  volConstraint :: double
  volConvTol :: double
  optVolume :: double

record Optimizer_OC = Optimizer +
  g_cur :: double
  g_last :: double
  dfdp :: "double list"
  dgdp :: "double list"
  dvdp :: "double list"
  moveLimit :: double
  stabExponent :: double
  volMaxIter :: int
  minVolume :: double
  maxVolume :: double
  volAccpTol :: double
  useNewtonSearch :: bool
  constraintGradient :: string

record Optimizer_NLopt = Optimizer +
  optMethod :: string
  nIterations :: int
  forced_stop :: bool





text \<open>\<^verbatim>\<open>computeNorm\<close> and \<^verbatim>\<open>computeDiffNorm\<close>; \<^verbatim>\<open>pow(x, 2)\<close> is \<open>x * x\<close>.\<close>

definition computeNorm :: "Comm \<Rightarrow> double list \<Rightarrow> nat \<Rightarrow> double" where
  "computeNorm comm p n =
     (let norm = dsum (map (\<lambda>i. p ! i * p ! i) [0..<n]);
          gnorm = SumAll comm norm
      in if gnorm > Fin 0 then dsqrt gnorm else Fin 0)"

definition computeDiffNorm :: "Comm \<Rightarrow> double list \<Rightarrow> double list \<Rightarrow> nat \<Rightarrow> double" where
  "computeDiffNorm comm p pl n =
     (let norm = dsum (map (\<lambda>i. (p ! i - pl ! i) * (p ! i - pl ! i)) [0..<n]);
          gnorm = SumAll comm norm
      in if gnorm > Fin 0 then dsqrt gnorm else Fin 0)"

text \<open>\<^verbatim>\<open>Optimizer_OC::Initialize\<close>, with the solver interface bound (\<open>Some\<close>) or null.\<close>

definition Initialize :: "SolverInterface option \<Rightarrow> Optimizer_OC \<Rightarrow> error + Optimizer_OC" where
  "Initialize solverInterface st =
     (case solverInterface of
        None \<Rightarrow> Inl InvalidParameter
      | Some si \<Rightarrow>
          (let n = GetNumOptDofs si
           in Inr (st\<lparr>numOptDofs := n,
                     p_cur := replicate n (getInitialValue (topology st)),
                     p_last := replicate n (Fin 0),
                     dfdp := replicate n (Fin 0),
                     dvdp := replicate n (Fin 0),
                     dgdp := (if constraintGradient st \<noteq> ''None'' then replicate n (Fin 0)
                              else dgdp st),
                     optVolume := ComputeVolume_ref si\<rparr>)))"


section \<open>The optimality-criteria update\<close>

text \<open>
  The body of the entry loop, which the source writes out four times with the
  multiplier \<^verbatim>\<open>vmid\<close>, \<^verbatim>\<open>lambda\<close>, \<^verbatim>\<open>plambda\<close> and \<^verbatim>\<open>vmid\<close> again.  \<open>unclampedEntry\<close> is
  its first half, the value \<^verbatim>\<open>p_new = (p_old-offset)*pow(be,_stabExponent)+offset\<close>;
  \<open>limitEntry\<close> is its second half (limit change, enforce limits) on that value.  The C
  library's \<^verbatim>\<open>pow\<close> is the parameter \<open>pw\<close>.
\<close>

definition unclampedEntry ::
  "(double \<Rightarrow> double \<Rightarrow> double) \<Rightarrow> Optimizer_OC \<Rightarrow> double \<Rightarrow> nat \<Rightarrow> double" where
  "unclampedEntry pw st lam i =
     (let minDensity = fst (getBounds (topology st));
          maxDensity = snd (getBounds (topology st));
          offset = minDensity - Fin 0.01 * (maxDensity - minDensity);
          be = (- (dfdp st ! i)) / (dvdp st ! i) / lam;
          p_old = p_last st ! i
      in (p_old - offset) * pw be (stabExponent st) + offset)"

definition limitEntry :: "double \<Rightarrow> double \<Rightarrow> double \<Rightarrow> double \<Rightarrow> double \<Rightarrow> double" where
  "limitEntry mvLimit minDensity maxDensity p_old p_new0 =
     (let dval = p_new0 - p_old;
          p_new1 = (if \<bar>dval\<bar> > mvLimit then p_old + \<bar>dval\<bar> / dval * mvLimit else p_new0);
          p_new2 = (if p_new1 < minDensity then minDensity else p_new1);
          p_new3 = (if p_new2 > maxDensity then maxDensity else p_new2)
      in p_new3)"

definition updateEntry ::
  "(double \<Rightarrow> double \<Rightarrow> double) \<Rightarrow> Optimizer_OC \<Rightarrow> double \<Rightarrow> nat \<Rightarrow> double" where
  "updateEntry pw st lam i =
     limitEntry (moveLimit st) (fst (getBounds (topology st))) (snd (getBounds (topology st)))
       (p_last st ! i) (unclampedEntry pw st lam i)"

definition updateTopology ::
  "(double \<Rightarrow> double \<Rightarrow> double) \<Rightarrow> Optimizer_OC \<Rightarrow> double \<Rightarrow> double list" where
  "updateTopology pw st lam = map (updateEntry pw st lam) [0..<numOptDofs st]"

text \<open>The first do-while loop (recursive bisection; with \<^verbatim>\<open>_useNewtonSearch\<close> it stops
  at the first positive residual).  It returns \<open>(p, vol, v1, v2, residRatio, niters)\<close>.\<close>

function bisection_first ::
  "(double \<Rightarrow> double \<Rightarrow> double) \<Rightarrow> SolverInterface \<Rightarrow> Optimizer_OC
     \<Rightarrow> double \<Rightarrow> double \<Rightarrow> double \<Rightarrow> int
     \<Rightarrow> double list \<times> double \<times> double \<times> double \<times> double \<times> int" where
  "bisection_first pw si st v1 v2 residRatio niters =
     (let vmid = (v2 + v1) / Fin 2;
          p = updateTopology pw st vmid
      in if useNewtonSearch st then
           (let prevResidual = Fin 0 - volConstraint st * optVolume st;
                vol = ComputeVolume si p;
                newResidual = vol - volConstraint st * optVolume st
            in if newResidual > Fin 0
               then (p, vol, vmid, v2, newResidual / prevResidual, niters + 1)
               else if niters + 1 < volMaxIter st
                       \<and> \<bar>vol - volConstraint st * optVolume st\<bar> > volConvTol st * optVolume st
                    then bisection_first pw si st v1 vmid residRatio (niters + 1)
                    else (p, vol, v1, vmid, residRatio, niters + 1))
         else
           (let vol = ComputeVolume si p;
                newResidual = vol - volConstraint st * optVolume st;
                v1' = (if newResidual > Fin 0 then vmid else v1);
                v2' = (if newResidual > Fin 0 then v2 else vmid)
            in if niters + 1 < volMaxIter st
                  \<and> \<bar>vol - volConstraint st * optVolume st\<bar> > volConvTol st * optVolume st
               then bisection_first pw si st v1' v2' residRatio (niters + 1)
               else (p, vol, v1', v2', residRatio, niters + 1)))"
  by pat_completeness auto
termination
  by (relation "measure (\<lambda>(pw, si, st, v1, v2, residRatio, niters). nat (volMaxIter st - niters))")
     auto

text \<open>The Newton (secant) loop.  It returns \<open>(p, vol, converged)\<close>.\<close>

function newton_search ::
  "(double \<Rightarrow> double \<Rightarrow> double) \<Rightarrow> SolverInterface \<Rightarrow> Optimizer_OC
     \<Rightarrow> double \<Rightarrow> int \<Rightarrow> double \<Rightarrow> int
     \<Rightarrow> double list \<times> double \<times> bool" where
  "newton_search pw si st epsilon newtonMaxIters lambda niters =
     (let p0 = updateTopology pw st lambda;
          vol0 = ComputeVolume si p0;
          f0 = vol0 - volConstraint st * optVolume st
      in if \<bar>f0\<bar> < volConvTol st * optVolume st then (p0, vol0, True)
         else
           (let plambda = lambda + epsilon;
                p1 = updateTopology pw st plambda;
                vol1 = ComputeVolume si p1;
                f1 = vol1 - volConstraint st * optVolume st
            in if feq (f1 - f0) (Fin 0) then (p1, vol1, False)
               else if niters + 1 < newtonMaxIters
                    then newton_search pw si st epsilon newtonMaxIters
                           (lambda - epsilon * f0 / (f1 - f0)) (niters + 1)
                    else (p1, vol1, False)))"
  by pat_completeness auto
termination
  by (relation "measure (\<lambda>(pw, si, st, epsilon, newtonMaxIters, lambda, niters).
                   nat (newtonMaxIters - niters))")
     auto

text \<open>The fallback do-while loop (recursive bisection again).  It returns \<open>(p, vol)\<close>.\<close>

function bisection_fallback ::
  "(double \<Rightarrow> double \<Rightarrow> double) \<Rightarrow> SolverInterface \<Rightarrow> Optimizer_OC
     \<Rightarrow> double \<Rightarrow> double \<Rightarrow> int
     \<Rightarrow> double list \<times> double" where
  "bisection_fallback pw si st v1 v2 niters =
     (let vmid = (v2 + v1) / Fin 2;
          p = updateTopology pw st vmid;
          vol = ComputeVolume si p;
          newResidual = vol - volConstraint st * optVolume st;
          v1' = (if newResidual > Fin 0 then vmid else v1);
          v2' = (if newResidual > Fin 0 then v2 else vmid)
      in if niters + 1 < volMaxIter st
            \<and> \<bar>vol - volConstraint st * optVolume st\<bar> > volConvTol st * optVolume st
         then bisection_fallback pw si st v1' v2' (niters + 1)
         else (p, vol))"
  by pat_completeness auto
termination
  by (relation "measure (\<lambda>(pw, si, st, v1, v2, niters). nat (volMaxIter st - niters))") auto

text \<open>\<^verbatim>\<open>computeUpdatedTopology\<close> up to its final check: the design vector and the volume
  the searches end with.\<close>

definition volumeSearch ::
  "(double \<Rightarrow> double \<Rightarrow> double) \<Rightarrow> SolverInterface \<Rightarrow> Comm \<Rightarrow> Optimizer_OC
     \<Rightarrow> double list \<times> double" where
  "volumeSearch pw si comm st =
     (let dfdp_tot = dsum (map (\<lambda>i. dfdp st ! i) [0..<numOptDofs st]);
          dvdp_tot = dsum (map (\<lambda>i. dvdp st ! i) [0..<numOptDofs st]);
          g_dfdp_tot = SumAll comm dfdp_tot;
          g_dvdp_tot = SumAll comm dvdp_tot;
          v2_0 = Fin (- 10) * g_dfdp_tot / g_dvdp_tot
      in case bisection_first pw si st (Fin 0) v2_0 (Fin 0) 0 of
           (p1, vol1, v1, v2, residRatio, niters) \<Rightarrow>
             if useNewtonSearch st then
               (let newtonMaxIters = niters + 10;
                    lambda = (residRatio * v2 - v1) / (residRatio - Fin 1);
                    epsilon = lambda * Fin (1 / 100000)
                in case (if lambda > Fin 0
                         then newton_search pw si st epsilon newtonMaxIters lambda niters
                         else (p1, vol1, False)) of
                     (p2, vol2, converged) \<Rightarrow>
                       if \<not> converged then bisection_fallback pw si st v1 v2 0
                       else (p2, vol2))
             else (p1, vol1))"

text \<open>\<^verbatim>\<open>computeUpdatedTopology\<close>: the final \<^verbatim>\<open>TEUCHOS_TEST_FOR_EXCEPTION\<close> throws when the
  comparison \<^verbatim>\<open>fabs(vol - _volConstraint*_optVolume) > _volAccpTol*_optVolume\<close> is true.\<close>

definition computeUpdatedTopology ::
  "(double \<Rightarrow> double \<Rightarrow> double) \<Rightarrow> SolverInterface \<Rightarrow> Comm \<Rightarrow> Optimizer_OC
     \<Rightarrow> error + Optimizer_OC" where
  "computeUpdatedTopology pw si comm st =
     (case volumeSearch pw si comm st of
        (p, vol) \<Rightarrow>
          if \<bar>vol - volConstraint st * optVolume st\<bar> > volAccpTol st * optVolume st
          then Inl InvalidParameter
          else Inr (st\<lparr>p_cur := p\<rparr>))"


section \<open>The outer loop of the optimality-criteria optimizer\<close>

text \<open>The call of the solver, with or without the gradient of the secondary
  constraint.\<close>

definition solverCompute :: "SolverInterface \<Rightarrow> Optimizer_OC \<Rightarrow> Optimizer_OC" where
  "solverCompute si st =
     (if constraintGradient st = ''Adjoint''
      then (case Compute_adjoint si (p_cur st) of
              (f, dfdp', g, dgdp') \<Rightarrow> st\<lparr>f_cur := f, dfdp := dfdp', g_cur := g, dgdp := dgdp'\<rparr>)
      else (case Compute si (p_cur st) of
              (f, dfdp', g) \<Rightarrow> st\<lparr>f_cur := f, dfdp := dfdp', g_cur := g\<rparr>))"

text \<open>The end of the block \<^verbatim>\<open>if( g != 0.0 ){ ... }\<close> of the outer loop: the step
  \<open>deltav0\<close> limited to \<^verbatim>\<open>_dvolLimit = 0.1*_volConstraint\<close>, added to the target, and the
  sum clamped to the minimum and the maximum volume fraction.\<close>

definition clampTarget :: "double \<Rightarrow> double \<Rightarrow> double \<Rightarrow> double \<Rightarrow> double" where
  "clampTarget vc minV maxV deltav0 =
     (let dvolLimit = Fin 0.1 * vc;
          deltav = (if \<bar>deltav0\<bar> > dvolLimit then deltav0 / \<bar>deltav0\<bar> * dvolLimit
                    else deltav0);
          vc1 = vc + deltav;
          vc2 = (if vc1 < minV then minV else vc1);
          vc3 = (if vc2 > maxV then maxV else vc2)
      in vc3)"

text \<open>The first part of that block, on the optimizer and the loop's local \<^verbatim>\<open>dgdv_vals\<close>:
  the step \<open>deltav\<close> from the adjoint probe, from the history of slopes, or the fixed
  probe step.  It returns the optimizer (the probe has changed its design vector), the
  step and the history.\<close>

definition secantStep ::
  "(double \<Rightarrow> double \<Rightarrow> double) \<Rightarrow> SolverInterface \<Rightarrow> Comm \<Rightarrow> Optimizer_OC \<times> double \<times> double list
     \<Rightarrow> error + (Optimizer_OC \<times> double \<times> double list)" where
  "secantStep pw si comm x =
     (case x of (st, volConstraint_last, dgdv_vals) \<Rightarrow>
        if constraintGradient st = ''Adjoint'' then
          (let dv = Fin 0.001
           in case computeUpdatedTopology pw si comm
                     (st\<lparr>volConstraint := volConstraint st + dv\<rparr>) of
                Inl e \<Rightarrow> Inl e
              | Inr st1 \<Rightarrow>
                  (let st2 = st1\<lparr>volConstraint := volConstraint st1 - dv\<rparr>;
                       dg = dsum (map (\<lambda>i. dgdp st2 ! i * (p_cur st2 ! i - p_last st2 ! i))
                                   [0..<numOptDofs st2]);
                       global_dg = SumAll comm dg;
                       dgdv = global_dg / dv
                   in Inr (st2, (- g_cur st2) / dgdv, dgdv_vals)))
        else if fne (volConstraint st) volConstraint_last then
          (let vals1 = dgdv_vals
                 @ [(g_cur st - g_last st) / (volConstraint st - volConstraint_last)];
               vals = (if length vals1 > 10 then tl vals1 else vals1);
               dgdv = dsum vals / Fin (real (length vals))
           in Inr (st, (- g_cur st) / dgdv, vals))
        else Inr (st, Fin 0.001, dgdv_vals))"

text \<open>The block \<^verbatim>\<open>if( g != 0.0 ){ ... }\<close>, on the optimizer and the loop's locals
  \<^verbatim>\<open>volConstraint_last\<close> and \<^verbatim>\<open>dgdv_vals\<close>.\<close>

definition adaptVolConstraint ::
  "(double \<Rightarrow> double \<Rightarrow> double) \<Rightarrow> SolverInterface \<Rightarrow> Comm \<Rightarrow> Optimizer_OC \<times> double \<times> double list
     \<Rightarrow> error + (Optimizer_OC \<times> double \<times> double list)" where
  "adaptVolConstraint pw si comm x =
     (case x of (st, volConstraint_last, dgdv_vals) \<Rightarrow>
        if fne (g_cur st) (Fin 0) then
          (case secantStep pw si comm (st, volConstraint_last, dgdv_vals) of
             Inl e \<Rightarrow> Inl e
           | Inr (st', deltav0, vals) \<Rightarrow>
               Inr (st'\<lparr>volConstraint :=
                         clampTarget (volConstraint st') (minVolume st') (maxVolume st') deltav0\<rparr>,
                    volConstraint st', vals))
        else Inr (st, volConstraint_last, dgdv_vals))"

text \<open>One pass through the body of the outer \<^verbatim>\<open>while\<close> loop, on the optimizer and the
  locals \<open>(iter, volConstraint_last, dgdv_vals)\<close>: the verdict of the convergence checker
  and the state the next pass starts from.\<close>

definition Optimize_iter ::
  "(double \<Rightarrow> double \<Rightarrow> double) \<Rightarrow> SolverInterface \<Rightarrow> Comm \<Rightarrow> Optimizer_OC \<times> int \<times> double \<times> double list
     \<Rightarrow> error + (bool \<times> Optimizer_OC \<times> int \<times> double \<times> double list)" where
  "Optimize_iter pw si comm x =
     (case x of (st, iter, volConstraint_last, dgdv_vals) \<Rightarrow>
        (let st1 = solverCompute si (st\<lparr>f_last := f_cur st, g_last := g_cur st\<rparr>);
             st2 = st1\<lparr>dvdp := snd (ComputeVolume_grad si (p_cur st1))\<rparr>;
             st3 = st2\<lparr>p_last := map (\<lambda>i. p_cur st2 ! i) [0..<numOptDofs st2]\<rparr>
         in case adaptVolConstraint pw si comm (st3, volConstraint_last, dgdv_vals) of
              Inl e \<Rightarrow> Inl e
            | Inr (st4, volConstraint_last', dgdv_vals') \<Rightarrow>
                (case computeUpdatedTopology pw si comm st4 of
                   Inl e \<Rightarrow> Inl e
                 | Inr st5 \<Rightarrow>
                     (let delta_f = SumAll comm (f_cur st5 - f_last st5);
                          delta_p = computeDiffNorm comm (p_cur st5) (p_last st5) (numOptDofs st5)
                      in case isConverged (convergenceChecker st5) delta_f delta_p iter
                                (MyPID comm) of
                           (conv, cc) \<Rightarrow>
                             Inr (conv, st5\<lparr>convergenceChecker := cc\<rparr>, iter + 1,
                                  volConstraint_last', dgdv_vals')))))"

function Optimize_loop ::
  "(double \<Rightarrow> double \<Rightarrow> double) \<Rightarrow> SolverInterface \<Rightarrow> Comm \<Rightarrow> Optimizer_OC \<times> int \<times> double \<times> double list
     \<Rightarrow> error + Optimizer_OC" where
  "Optimize_loop pw si comm x =
     (case Optimize_iter pw si comm x of
        Inl e \<Rightarrow> Inl e
      | Inr (conv, x') \<Rightarrow> if conv then Inr (fst x') else Optimize_loop pw si comm x')"
  by pat_completeness auto

text \<open>The states (the optimizer and the locals) that the passes through the loop body
  start from, in order: the first one, and the next one after every pass that ends
  without an error and without convergence.\<close>

function Optimize_starts ::
  "(double \<Rightarrow> double \<Rightarrow> double) \<Rightarrow> SolverInterface \<Rightarrow> Comm \<Rightarrow> Optimizer_OC \<times> int \<times> double \<times> double list
     \<Rightarrow> (Optimizer_OC \<times> int \<times> double \<times> double list) list" where
  "Optimize_starts pw si comm x =
     x # (case Optimize_iter pw si comm x of
            Inl e \<Rightarrow> []
          | Inr (conv, x') \<Rightarrow> if conv then [] else Optimize_starts pw si comm x')"
  by pat_completeness auto

text \<open>\<^verbatim>\<open>Optimize\<close> up to its loop: the first solve, the first constrained update and the
  baselines of the convergence checker.\<close>

definition Optimize_prologue ::
  "(double \<Rightarrow> double \<Rightarrow> double) \<Rightarrow> SolverInterface \<Rightarrow> Comm \<Rightarrow> Optimizer_OC \<Rightarrow> error + Optimizer_OC" where
  "Optimize_prologue pw si comm st =
     (let st1 = solverCompute si st;
          st2 = st1\<lparr>p_last := map (\<lambda>i. p_cur st1 ! i) [0..<numOptDofs st1]\<rparr>;
          st3 = st2\<lparr>dvdp := snd (ComputeVolume_grad si (p_cur st2))\<rparr>
      in case computeUpdatedTopology pw si comm st3 of
           Inl e \<Rightarrow> Inl e
         | Inr st4 \<Rightarrow>
             (let pnorm = computeNorm comm (p_cur st4) (numOptDofs st4);
                  global_f = SumAll comm (f_cur st4)
              in Inr (st4\<lparr>convergenceChecker :=
                            initNorm (convergenceChecker st4) global_f pnorm\<rparr>)))"

text \<open>\<^verbatim>\<open>Optimize\<close>: the loop starts with \<^verbatim>\<open>iter = 0\<close>, \<^verbatim>\<open>volConstraint_last\<close> the current
  target and an empty \<^verbatim>\<open>dgdv_vals\<close>.\<close>

definition Optimize ::
  "(double \<Rightarrow> double \<Rightarrow> double) \<Rightarrow> SolverInterface \<Rightarrow> Comm \<Rightarrow> Optimizer_OC \<Rightarrow> error + Optimizer_OC" where
  "Optimize pw si comm st =
     (case Optimize_prologue pw si comm st of
        Inl e \<Rightarrow> Inl e
      | Inr st5 \<Rightarrow> Optimize_loop pw si comm (st5, 0, volConstraint st5, []))"


section \<open>The objective callback of the NLopt adapter\<close>

text \<open>\<^verbatim>\<open>evaluate_backend\<close> up to the call of the convergence checker: the optimizer after
  the solver call, the gradient handed back, and the two deltas \<open>(delta_f, delta_p)\<close>.\<close>

definition evaluate_backend_deltas ::
  "SolverInterface \<Rightarrow> Comm \<Rightarrow> Optimizer_NLopt \<Rightarrow> double list
     \<Rightarrow> Optimizer_NLopt \<times> double list \<times> double \<times> double" where
  "evaluate_backend_deltas si comm st x =
     (let st1 = st\<lparr>f_last := f_cur st\<rparr>;
          st2 = st1\<lparr>p_last := map (\<lambda>i. x ! i) [0..<numOptDofs st1]\<rparr>
      in case ComputeObjective si x of
           (f, grad) \<Rightarrow>
             (let st3 = st2\<lparr>f_cur := f\<rparr>;
                  delta_f = SumAll comm (f_cur st3 - f_last st3);
                  delta_p = computeDiffNorm comm x (p_last st3) (numOptDofs st3)
              in (st3, grad, delta_f, delta_p)))"

text \<open>The whole callback: the value returned, the gradient, and the optimizer after the
  call (\<open>forced_stop\<close> once the library has been asked to stop).\<close>

definition evaluate_backend ::
  "SolverInterface \<Rightarrow> Comm \<Rightarrow> Optimizer_NLopt \<Rightarrow> double list
     \<Rightarrow> double \<times> double list \<times> Optimizer_NLopt" where
  "evaluate_backend si comm st x =
     (case evaluate_backend_deltas si comm st x of
        (st3, grad, delta_f, delta_p) \<Rightarrow>
          (case isConverged (convergenceChecker st3) delta_f delta_p (nIterations st3)
                  (MyPID comm) of
             (conv, cc) \<Rightarrow>
               (f_cur st3, grad,
                st3\<lparr>convergenceChecker := cc,
                    forced_stop := (if conv then True else forced_stop st3),
                    nIterations := nIterations st3 + 1\<rparr>)))"

text \<open>The communicator of a run on one rank: the global sum of a value is the value.\<close>

definition serialComm :: Comm where
  "serialComm = \<lparr>MyPID = 0, NumProc = 1, SumAll = (\<lambda>v. v)\<rparr>"


section \<open>A small configuration\<close>

text \<open>
  One design entry with bounds \<open>[0, 1]\<close>, volume \<open>sum p\<close> against a reference volume of 1,
  objective \<open>- sum p\<close> and secondary constraint \<open>c * (sum p + 1)\<close> (never zero for a finite
  \<open>c \<noteq> 0\<close> on a design within the bounds); move limit \<open>1/5\<close>, stabilization exponent 1,
  target volume fraction \<open>2/5\<close>, plain bisection; one rank.
\<close>

definition ex_si :: "double \<Rightarrow> SolverInterface" where
  "ex_si c = \<lparr>GetNumOptDofs = 1, ComputeVolume_ref = Fin 1, ComputeVolume = dsum,
            ComputeVolume_grad = (\<lambda>p. (dsum p, map (\<lambda>_. Fin 1) p)),
            Compute = (\<lambda>p. (- dsum p, map (\<lambda>_. Fin (- 1)) p, c * (dsum p + Fin 1))),
            Compute_adjoint = (\<lambda>p. (- dsum p, map (\<lambda>_. Fin (- 1)) p, c * (dsum p + Fin 1),
                                    map (\<lambda>_. c) p)),
            ComputeObjective = (\<lambda>p. (- dsum p, map (\<lambda>_. Fin (- 1)) p))\<rparr>"

text \<open>The same with the secondary constraint the constant \<open>c\<close>.\<close>

definition ex_si_const :: "double \<Rightarrow> SolverInterface" where
  "ex_si_const c =
     (ex_si c)\<lparr>Compute := (\<lambda>p. (- dsum p, map (\<lambda>_. Fin (- 1)) p, c)),
               Compute_adjoint := (\<lambda>p. (- dsum p, map (\<lambda>_. Fin (- 1)) p, c,
                                        map (\<lambda>_. Fin 0) p))\<rparr>"

text \<open>The C library's \<^verbatim>\<open>pow\<close> on a finite positive base and a finite exponent (exact, as
  the arithmetic), and on a NaN base and a finite exponent other than zero; elsewhere
  \<open>ex_pow\<close> is a NaN, and the examples do not go there.\<close>

definition ex_pow :: "double \<Rightarrow> double \<Rightarrow> double" where
  "ex_pow b e = (if fin b \<and> fin e \<and> 0 < rv b then Fin (rv b powr rv e) else NaN)"

definition ex_cc :: ConvergenceTest where
  "ex_cc = \<lparr>minIterations = 0, maxIterations = 1, comboType = OR,
            conTests = [AbsDeltaF (Fin (1 / 1000))]\<rparr>"

definition ex_oc :: "double \<Rightarrow> Optimizer_OC" where
  "ex_oc tol = \<lparr>topology = \<lparr>getBounds = (Fin 0, Fin 1), getInitialValue = Fin (1 / 2)\<rparr>,
      convergenceChecker = ex_cc, numOptDofs = 1,
      p_cur = [Fin (1 / 2)], p_last = [Fin (1 / 2)], f_cur = Fin 0, f_last = Fin 0,
      volConstraint = Fin (2 / 5), volConvTol = tol, optVolume = Fin 1,
      g_cur = Fin 0, g_last = Fin 0, dfdp = [Fin (- 1)], dgdp = [], dvdp = [Fin 1],
      moveLimit = Fin (1 / 5), stabExponent = Fin 1, volMaxIter = 20,
      minVolume = Fin (1 / 10), maxVolume = Fin 1, volAccpTol = tol,
      useNewtonSearch = False, constraintGradient = ''None''\<rparr>"


text \<open>An NLopt optimizer on one design entry whose convergence checker tests the
  absolute design change against \<open>1/1000\<close>.\<close>

definition ex_nlopt :: Optimizer_NLopt where
  "ex_nlopt = \<lparr>topology = \<lparr>getBounds = (Fin 0, Fin 1), getInitialValue = Fin 0\<rparr>,
      convergenceChecker = \<lparr>minIterations = 0, maxIterations = 100, comboType = OR,
                             conTests = [AbsDeltaP (Fin (1 / 1000))]\<rparr>,
      numOptDofs = 1, p_cur = [Fin 0], p_last = [Fin 0], f_cur = Fin 0, f_last = Fin 0,
      volConstraint = Fin (2 / 5), volConvTol = Fin (1 / 100), optVolume = Fin 1,
      optMethod = ''MMA'', nIterations = 0, forced_stop = False\<rparr>"


section \<open>Doubles: lemmas\<close>

lemmas double_defs = plus_double_def minus_double_def uminus_double_def times_double_def
  divide_double_def abs_double_def less_double_def less_eq_double_def feq_def fne_def
  dsqrt_def isinf_def iszero_def zero_s_def inf_s_def fin_s_def

text \<open>On finite doubles the arithmetic is the arithmetic of their values.\<close>

lemma fin_plus [simp]: "fin a \<Longrightarrow> fin b \<Longrightarrow> fin (a + b)"
  by (cases a; cases b) (simp_all add: double_defs)

lemma rv_plus [simp]: "fin a \<Longrightarrow> fin b \<Longrightarrow> rv (a + b) = rv a + rv b"
  by (cases a; cases b) (simp_all add: double_defs)

lemma fin_uminus [simp]: "fin (- a) = fin a"
  by (cases a) (simp_all add: double_defs)

lemma rv_uminus [simp]: "rv (- a) = - rv a"
  by (cases a) (simp_all add: double_defs)

lemma fin_minus [simp]: "fin a \<Longrightarrow> fin b \<Longrightarrow> fin (a - b)"
  by (simp add: minus_double_def)

lemma rv_minus [simp]: "fin a \<Longrightarrow> fin b \<Longrightarrow> rv (a - b) = rv a - rv b"
  by (simp add: minus_double_def)

lemma fin_times [simp]: "fin a \<Longrightarrow> fin b \<Longrightarrow> fin (a * b)"
  by (cases a; cases b) (simp_all add: double_defs)

lemma rv_times [simp]: "fin a \<Longrightarrow> fin b \<Longrightarrow> rv (a * b) = rv a * rv b"
  by (cases a; cases b) (simp_all add: double_defs)

lemma fin_divide [simp]: "fin a \<Longrightarrow> fin b \<Longrightarrow> rv b \<noteq> 0 \<Longrightarrow> fin (a / b)"
  by (cases a; cases b) (simp_all add: double_defs)

lemma rv_divide [simp]: "fin a \<Longrightarrow> fin b \<Longrightarrow> rv b \<noteq> 0 \<Longrightarrow> rv (a / b) = rv a / rv b"
  by (cases a; cases b) (simp_all add: double_defs)

lemma fin_abs [simp]: "fin \<bar>a\<bar> = fin a"
  by (cases a) (simp_all add: double_defs)

lemma rv_abs [simp]: "rv \<bar>a\<bar> = \<bar>rv a\<bar>"
  by (cases a) (simp_all add: double_defs)

lemma less_fin: "fin a \<Longrightarrow> fin b \<Longrightarrow> (a < b) = (rv a < rv b)"
  by (cases a; cases b) (simp_all add: double_defs)

lemma less_eq_fin: "fin a \<Longrightarrow> fin b \<Longrightarrow> (a \<le> b) = (rv a \<le> rv b)"
  by (cases a; cases b) (simp_all add: double_defs)

lemma feq_fin: "fin a \<Longrightarrow> fin b \<Longrightarrow> feq a b = (rv a = rv b)"
  by (cases a; cases b) (simp_all add: double_defs)

text \<open>A NaN operand gives a NaN, and a comparison with a NaN is false.\<close>

lemma NaN_arith [simp]:
  "NaN + a = NaN" "a + NaN = NaN" "NaN - a = NaN" "a - NaN = NaN"
  "NaN * a = NaN" "a * NaN = NaN" "NaN / a = NaN" "a / NaN = NaN"
  "- NaN = NaN" "\<bar>NaN\<bar> = NaN"
  by (cases a; simp add: double_defs)+

lemma NaN_compare [simp]:
  "\<not> NaN < a" "\<not> a < NaN" "\<not> NaN \<le> a" "\<not> a \<le> NaN" "\<not> feq NaN a" "\<not> feq a NaN"
  by (simp_all add: double_defs)

lemma fin_not_NaN [simp]: "fin a \<Longrightarrow> a \<noteq> NaN"
  by (cases a) simp_all

lemma not_fin_NaN [simp]: "\<not> fin NaN"
  by simp

lemma abs_eq_NaN [simp]: "(\<bar>a\<bar> = NaN) = (a = NaN)"
  by (cases a) (simp_all add: double_defs)

lemma less_eq_not_NaN: "a \<le> b \<Longrightarrow> a \<noteq> NaN \<and> b \<noteq> NaN"
  by (cases a; cases b) (simp_all add: double_defs)

lemma less_not_NaN: "a < b \<Longrightarrow> a \<noteq> NaN \<and> b \<noteq> NaN"
  by (cases a; cases b) (simp_all add: double_defs)


lemma between_fin: "fin lo \<Longrightarrow> fin hi \<Longrightarrow> lo \<le> a \<Longrightarrow> a \<le> hi \<Longrightarrow> fin a"
  by (cases a; cases lo; cases hi) (simp_all add: double_defs)

lemma feq_refl_fin: "fin a \<Longrightarrow> feq a a"
  by (simp add: feq_fin)

text \<open>An infinity next to a finite double.\<close>

lemma inf_minus_fin [simp]: "fin b \<Longrightarrow> PInf - b = PInf" "fin b \<Longrightarrow> MInf - b = MInf"
  by (cases b; simp add: double_defs)+

lemma inf_plus_fin [simp]:
  "fin b \<Longrightarrow> PInf + b = PInf" "fin b \<Longrightarrow> MInf + b = MInf"
  "fin b \<Longrightarrow> b + PInf = PInf" "fin b \<Longrightarrow> b + MInf = MInf"
  by (cases b; simp add: double_defs)+

lemma fin_less_PInf [simp]: "fin a \<Longrightarrow> a < PInf" "fin a \<Longrightarrow> MInf < a"
  by (cases a; simp add: double_defs)+

lemma inf_by_inf [simp]:
  "PInf / PInf = NaN" "PInf / MInf = NaN" "MInf / PInf = NaN" "MInf / MInf = NaN"
  "\<bar>PInf\<bar> = PInf" "\<bar>MInf\<bar> = PInf"
  by (simp_all add: double_defs)

lemma not_fin_cases: "\<not> fin a \<Longrightarrow> a = PInf \<or> a = MInf \<or> a = NaN"
  by (cases a) simp_all

section \<open>ConvergenceTest: results\<close>

lemma isConverged_iter0: "fst (isConverged ct delta_f delta_p 0 myPID) = False"
  by (simp add: isConverged_def)

lemma isConverged_at_limit:
  assumes "iter \<noteq> 0" and "maxIterations ct \<le> iter"
  shows "fst (isConverged ct delta_f delta_p iter myPID)"
  using assms by (simp add: isConverged_def Let_def split: prod.splits)

lemma isConverged_before_min:
  assumes "iter < minIterations ct" and "iter < maxIterations ct"
  shows "\<not> fst (isConverged ct delta_f delta_p iter myPID)"
  using assms by (simp add: isConverged_def Let_def split: prod.splits)

lemma isConverged_below_min:
  assumes "iter < minIterations ct"
  shows "fst (isConverged ct delta_f delta_p iter myPID) = (iter \<noteq> 0 \<and> maxIterations ct \<le> iter)"
  using assms by (simp add: isConverged_def Let_def split: prod.splits)

lemma passed_all_Nil: "passed_all [] delta_f delta_p = ([], [])"
  by simp

lemma isConverged_no_tests_AND:
  assumes "conTests ct = []" and "comboType ct = AND" and "iter \<noteq> 0" and "minIterations ct \<le> iter"
  shows "fst (isConverged ct delta_f delta_p iter myPID)"
  using assms by (simp add: isConverged_def Let_def)

lemma isConverged_no_tests_OR:
  assumes "conTests ct = []" and "comboType ct = OR"
  shows "fst (isConverged ct delta_f delta_p iter myPID) = (iter \<noteq> 0 \<and> maxIterations ct \<le> iter)"
  using assms by (auto simp add: isConverged_def Let_def)

lemma ctor_no_criteria:
  assumes "ConvergenceTest_ctor convParams = Inr ct"
    and "\<forall>name\<in>set criterionNames. \<not> isType_double convParams name"
  shows "conTests ct = []"
proof -
  have none: "\<And>name mk. name \<in> set criterionNames \<Longrightarrow> opt_criterion convParams name mk = []"
    using assms(2) by (simp add: opt_criterion_def)
  have names: "''Relative Topology Change'' \<in> set criterionNames"
    "''Absolute Topology Change'' \<in> set criterionNames"
    "''Relative Objective Change'' \<in> set criterionNames"
    "''Absolute Objective Change'' \<in> set criterionNames"
    "''Relative Objective Running Average Change'' \<in> set criterionNames"
    "''Absolute Objective Running Average Change'' \<in> set criterionNames"
    by (simp_all add: criterionNames_def)
  show ?thesis
    using assms(1) none[OF names(1)] none[OF names(2)] none[OF names(3)]
      none[OF names(4)] none[OF names(5)] none[OF names(6)]
    by (auto simp add: ConvergenceTest_ctor_def Let_def split: if_splits sum.splits)
qed

text \<open>
  Claim C3 as amended.  \<open>isConverged\<close> returns not-converged at \<open>iter = 0\<close>, and returns
  converged whenever \<open>iter \<ge> maxIterations\<close> and \<open>iter \<noteq> 0\<close>, for every ConvergenceTest
  and all deltas.  (The check \<open>iter = 0\<close> comes first, so at \<open>iter = 0\<close> the iteration
  limit is not looked at.)
\<close>

theorem C3_isConverged_iter0_and_limit:
  "fst (isConverged ct delta_f delta_p 0 myPID) = False \<and>
   (iter \<noteq> 0 \<longrightarrow> maxIterations ct \<le> iter \<longrightarrow>
      fst (isConverged ct delta_f delta_p iter myPID) = True)"
  using isConverged_iter0 isConverged_at_limit by simp

theorem C3_isConverged_iter0_and_limit_witness:
  "fst (isConverged \<lparr>minIterations = 5, maxIterations = 3, comboType = OR,
                    conTests = [AbsDeltaF (Fin 1)]\<rparr> (Fin 7) (Fin 7) 0 0) = False \<and>
   (3::int) \<noteq> 0 \<and>
   maxIterations \<lparr>minIterations = 5, maxIterations = 3, comboType = OR,
                  conTests = [AbsDeltaF (Fin 1)]\<rparr> \<le> 3 \<and>
   fst (isConverged \<lparr>minIterations = 5, maxIterations = 3, comboType = OR,
                    conTests = [AbsDeltaF (Fin 1)]\<rparr> (Fin 7) (Fin 7) 3 0) = True"
  using C3_isConverged_iter0_and_limit
    [of "\<lparr>minIterations = 5, maxIterations = 3, comboType = OR,
           conTests = [AbsDeltaF (Fin 1)]\<rparr>"
        "Fin 7" "Fin 7" 0 3]
  by simp

text \<open>
  Claim C3 as stated fails: with \<open>maxIterations = 0\<close> the call at \<open>iter = 0\<close> has
  \<open>iter \<ge> maxIterations\<close> and still returns not-converged.
\<close>

theorem C3_isConverged_limit_counterexample:
  "\<not> (\<forall>ct delta_f delta_p iter myPID.
        (iter = 0 \<longrightarrow> fst (isConverged ct delta_f delta_p iter myPID) = False) \<and>
        (maxIterations ct \<le> iter \<longrightarrow> fst (isConverged ct delta_f delta_p iter myPID) = True))"
proof
  assume a: "\<forall>ct delta_f delta_p iter myPID.
        (iter = 0 \<longrightarrow> fst (isConverged ct delta_f delta_p iter myPID) = False) \<and>
        (maxIterations ct \<le> iter \<longrightarrow> fst (isConverged ct delta_f delta_p iter myPID) = True)"
  have "maxIterations \<lparr>minIterations = 0, maxIterations = 0, comboType = OR, conTests = []\<rparr> \<le> 0
        \<longrightarrow> fst (isConverged \<lparr>minIterations = 0, maxIterations = 0, comboType = OR,
                                conTests = []\<rparr> (Fin 0) (Fin 0) 0 0) = True"
    using a by blast
  then show False by (simp add: isConverged_def)
qed

text \<open>
  Claim C7 as amended.  While \<open>iter < minIterations\<close>, \<open>isConverged\<close> returns converged
  exactly when the iteration limit forces it (\<open>iter \<ge> maxIterations\<close> and \<open>iter \<noteq> 0\<close>);
  so it never returns converged while \<open>iter < minIterations\<close> and \<open>iter < maxIterations\<close>,
  whatever the criteria and the deltas.
\<close>

theorem C7_isConverged_min_iterations:
  "iter < minIterations ct \<Longrightarrow>
     fst (isConverged ct delta_f delta_p iter myPID) = (iter \<noteq> 0 \<and> maxIterations ct \<le> iter)"
  by (rule isConverged_below_min)

theorem C7_isConverged_min_iterations_witness:
  "(2::int) < minIterations \<lparr>minIterations = 5, maxIterations = 9, comboType = OR,
                              conTests = [AbsDeltaF (Fin 1)]\<rparr> \<and>
   fst (isConverged \<lparr>minIterations = 5, maxIterations = 9, comboType = OR,
                    conTests = [AbsDeltaF (Fin 1)]\<rparr> (Fin 0) (Fin 0) 2 0) = False"
  using C7_isConverged_min_iterations
    [of 2 "\<lparr>minIterations = 5, maxIterations = 9, comboType = OR, conTests = [AbsDeltaF (Fin 1)]\<rparr>"
        "Fin 0" "Fin 0" 0]
  by simp

text \<open>
  Claim C7 as stated fails where \<open>maxIterations \<le> minIterations\<close>: with
  \<open>minIterations = 5\<close> and \<open>maxIterations = 3\<close> the call at \<open>iter = 3\<close> returns converged
  although \<open>iter < minIterations\<close>.
\<close>

theorem C7_isConverged_min_iterations_counterexample:
  "(3::int) < minIterations \<lparr>minIterations = 5, maxIterations = 3, comboType = OR,
                              conTests = []\<rparr> \<and>
   fst (isConverged \<lparr>minIterations = 5, maxIterations = 3, comboType = OR,
                    conTests = []\<rparr> (Fin 0) (Fin 0) 3 0) = True"
  by (simp add: isConverged_def)

text \<open>
  Claim C9.  A relative criterion (RelDeltaP, RelDeltaF, RelRunningDF) whose baseline is
  exactly zero (the positive or the negative zero) returns not-passed for every delta,
  every threshold and every history: the guard decides before the quotient by the
  baseline is looked at.
\<close>

theorem C9_relative_zero_baseline_not_passed:
  "fst (passed (RelDeltaP conValue (Fin 0)) delta_f delta_p) = False \<and>
   fst (passed (RelDeltaF conValue (Fin 0)) delta_f delta_p) = False \<and>
   fst (passed (RelRunningDF conValue (Fin 0) dF runningDF nave) delta_f delta_p) = False \<and>
   fst (passed (RelDeltaP conValue NegZero) delta_f delta_p) = False \<and>
   fst (passed (RelDeltaF conValue NegZero) delta_f delta_p) = False \<and>
   fst (passed (RelRunningDF conValue NegZero dF runningDF nave) delta_f delta_p) = False"
  by (simp add: Let_def fne_def feq_def)

text \<open>
  Claim C10.  A ConvergenceTest constructed from parameters with none of the six
  criterion parameters has no criteria.  With combinator AND, \<open>isConverged\<close> then returns
  converged at every \<open>iter \<ge> 1\<close> with \<open>iter \<ge> minIterations\<close>, for all deltas; with
  combinator OR it returns converged exactly when \<open>iter \<noteq> 0\<close> and
  \<open>iter \<ge> maxIterations\<close>, so only once the iteration limit is reached.
\<close>

theorem C10_empty_criteria:
  assumes "ConvergenceTest_ctor convParams = Inr ct"
    and "\<forall>name\<in>set criterionNames. \<not> isType_double convParams name"
  shows "(comboType ct = AND \<longrightarrow> 1 \<le> iter \<longrightarrow> minIterations ct \<le> iter \<longrightarrow>
            fst (isConverged ct delta_f delta_p iter myPID) = True) \<and>
         (comboType ct = OR \<longrightarrow>
            fst (isConverged ct delta_f delta_p iter myPID)
              = (iter \<noteq> 0 \<and> maxIterations ct \<le> iter))"
proof -
  have e: "conTests ct = []"
    using assms by (rule ctor_no_criteria)
  show ?thesis
    using isConverged_no_tests_AND[OF e, of iter delta_f delta_p myPID]
      isConverged_no_tests_OR[OF e, of delta_f delta_p iter myPID]
    by auto
qed

lemma ctor_example_AND:
  "ConvergenceTest_ctor
     [(''Minimum Iterations'', PInt 2), (''Maximum Iterations'', PInt 5),
      (''Combo Type'', PString ''AND'')]
   = Inr \<lparr>minIterations = 2, maxIterations = 5, comboType = AND, conTests = []\<rparr>"
  by code_simp

lemma ctor_example_no_criteria:
  "\<forall>name\<in>set criterionNames.
     \<not> isType_double
        [(''Minimum Iterations'', PInt 2), (''Maximum Iterations'', PInt 5),
         (''Combo Type'', PString ''AND'')] name"
  by code_simp

theorem C10_empty_criteria_witness:
  "fst (isConverged \<lparr>minIterations = 2, maxIterations = 5, comboType = AND, conTests = []\<rparr>
          (Fin 3) (Fin 4) 2 0) = True"
  using C10_empty_criteria[OF ctor_example_AND ctor_example_no_criteria, of 2 "Fin 3" "Fin 4" 0]
  by simp


section \<open>The optimality-criteria update: lemmas\<close>

declare bisection_first.simps [simp del]
declare newton_search.simps [simp del]
declare bisection_fallback.simps [simp del]




lemma length_updateTopology [simp]: "length (updateTopology pw st lam) = numOptDofs st"
  by (simp add: updateTopology_def)








lemma computeUpdatedTopology_Inr:
  "computeUpdatedTopology pw si comm st = Inr st' \<longleftrightarrow>
     (\<not> \<bar>snd (volumeSearch pw si comm st) - volConstraint st * optVolume st\<bar>
          > volAccpTol st * optVolume st
      \<and> st' = st\<lparr>p_cur := fst (volumeSearch pw si comm st)\<rparr>)"
  by (auto simp: computeUpdatedTopology_def split: prod.splits)


section \<open>The outer loop: lemmas\<close>

lemma not_PInf_less [simp]: "\<not> PInf < a" "\<not> a < MInf"
  by (cases a; simp add: double_defs)+

lemma zero_by_zero: "fin a \<Longrightarrow> fin b \<Longrightarrow> rv a = 0 \<Longrightarrow> rv b = 0 \<Longrightarrow> a / b = NaN"
  by (cases a; cases b) (simp_all add: double_defs)

text \<open>The two clamps at the end of the block leave a NaN or a value within the range,
  whatever the target and the step were.\<close>

lemma clampTarget_range_or_NaN:
  assumes "fin lo" "fin hi" "lo \<le> hi"
  shows "clampTarget vc lo hi d0 = NaN
         \<or> (lo \<le> clampTarget vc lo hi d0 \<and> clampTarget vc lo hi d0 \<le> hi)"
proof -
  define y where "y = vc + (if \<bar>d0\<bar> > Fin 0.1 * vc then d0 / \<bar>d0\<bar> * (Fin 0.1 * vc) else d0)"
  have eq: "clampTarget vc lo hi d0
              = (if (if y < lo then lo else y) > hi then hi else (if y < lo then lo else y))"
    by (simp add: clampTarget_def Let_def y_def)
  from assms have r: "rv lo \<le> rv hi" by (simp add: less_eq_fin)
  show ?thesis
  proof (cases "fin y")
    case True
    with assms(1,2) r show ?thesis
      unfolding eq by (auto simp: less_fin less_eq_fin)
  next
    case False
    from not_fin_cases[OF this] assms r show ?thesis
      unfolding eq by (auto simp: less_fin less_eq_fin)
  qed
qed

lemma clampTarget_NaN [simp]: "clampTarget NaN lo hi d0 = NaN"
  by (simp add: clampTarget_def Let_def)

text \<open>With the target finite and within the range: a finite step that is not zero (or
  any finite step, when the target is not negative) gives a finite target within the
  range, at most a tenth of the old target away from it.\<close>

lemma clampTarget_fin:
  assumes f: "fin vc" "fin lo" "fin hi" "fin d0"
    and "lo \<le> vc" and "vc \<le> hi"
    and z: "rv d0 \<noteq> 0 \<or> 0 \<le> rv vc"
  shows "fin (clampTarget vc lo hi d0)
         \<and> rv lo \<le> rv (clampTarget vc lo hi d0) \<and> rv (clampTarget vc lo hi d0) \<le> rv hi
         \<and> \<bar>rv (clampTarget vc lo hi d0) - rv vc\<bar> \<le> 1 / 10 * \<bar>rv vc\<bar>"
proof -
  from assms have r: "rv lo \<le> rv vc" "rv vc \<le> rv hi" by (simp_all add: less_eq_fin)
  define L where "L = Fin 0.1 * vc"
  have L: "fin L" "rv L = 1 / 10 * rv vc" using f by (simp_all add: L_def)
  define d where "d = (if \<bar>d0\<bar> > L then d0 / \<bar>d0\<bar> * L else d0)"
  have d: "fin d \<and> \<bar>rv d\<bar> \<le> \<bar>rv L\<bar>"
  proof (cases "\<bar>d0\<bar> > L")
    case True
    then have gt: "rv L < \<bar>rv d0\<bar>" using f L by (simp add: less_fin)
    have nz: "rv d0 \<noteq> 0"
    proof
      assume "rv d0 = 0"
      with gt L(2) z show False by auto
    qed
    define s where "s = rv d0 / \<bar>rv d0\<bar>"
    have s: "s = 1 \<or> s = - 1"
      unfolding s_def using nz by (cases "rv d0 > 0") (auto simp: abs_if)
    have "fin (d0 / \<bar>d0\<bar>)" "rv (d0 / \<bar>d0\<bar>) = s"
      using f nz by (simp_all add: s_def)
    then have "fin d" "rv d = s * rv L" using True L by (simp_all add: d_def)
    with s show ?thesis by auto
  next
    case False
    then have "\<not> rv L < \<bar>rv d0\<bar>" using f L by (simp add: less_fin)
    moreover have "d = d0" using False by (simp add: d_def)
    ultimately show ?thesis using f by auto
  qed
  define v1 where "v1 = vc + d"
  have v1: "fin v1" "rv v1 = rv vc + rv d" using f d by (simp_all add: v1_def)
  define v2 where "v2 = (if v1 < lo then lo else v1)"
  have v2: "fin v2" "rv v2 = (if rv v1 < rv lo then rv lo else rv v1)"
    using v1 f by (simp_all add: v2_def less_fin)
  define v3 where "v3 = (if v2 > hi then hi else v2)"
  have v3: "fin v3" "rv v3 = (if rv v2 > rv hi then rv hi else rv v2)"
    using v2 f by (simp_all add: v3_def less_fin)
  have eq: "clampTarget vc lo hi d0 = v3"
    by (simp add: clampTarget_def Let_def v3_def v2_def v1_def d_def L_def)
  have "\<bar>rv d\<bar> \<le> 1 / 10 * \<bar>rv vc\<bar>" using d L(2) by (simp add: abs_mult)
  moreover have "\<bar>rv v3 - rv vc\<bar> \<le> \<bar>rv d\<bar>"
    using r v1(2) v2(2) v3(2) by (auto simp: abs_if split: if_splits)
  moreover have "rv lo \<le> rv v3 \<and> rv v3 \<le> rv hi"
    using r v2(2) v3(2) by auto
  ultimately show ?thesis unfolding eq using v3(1) by auto
qed

text \<open>With the target finite and within the range, any other step (an infinity, a NaN,
  or a zero step at a negative target) gives a NaN.\<close>

lemma clampTarget_not_fin:
  assumes f: "fin vc" and n: "\<not> fin d0 \<or> (rv d0 = 0 \<and> rv vc < 0)"
  shows "clampTarget vc lo hi d0 = NaN"
proof (cases "fin d0")
  case False
  have L: "fin (Fin 0.1 * vc)" using f by simp
  from not_fin_cases[OF False] L show ?thesis
    by (auto simp: clampTarget_def Let_def)
next
  case True
  with n have z: "rv d0 = 0" "rv vc < 0" by auto
  have L: "fin (Fin 0.1 * vc)" "rv (Fin 0.1 * vc) < 0" using f z by simp_all
  then have gt: "\<bar>d0\<bar> > Fin 0.1 * vc" using True z by (simp add: less_fin)
  have "d0 / \<bar>d0\<bar> = NaN" using True z by (simp add: zero_by_zero)
  with gt show ?thesis by (simp add: clampTarget_def Let_def)
qed

lemma clampTarget_cases:
  assumes "fin vc" "fin lo" "fin hi" "lo \<le> vc" "vc \<le> hi"
  shows "clampTarget vc lo hi d0 = NaN
         \<or> (fin (clampTarget vc lo hi d0)
            \<and> rv lo \<le> rv (clampTarget vc lo hi d0) \<and> rv (clampTarget vc lo hi d0) \<le> rv hi
            \<and> \<bar>rv (clampTarget vc lo hi d0) - rv vc\<bar> \<le> 1 / 10 * \<bar>rv vc\<bar>)"
proof (cases "fin d0 \<and> (rv d0 \<noteq> 0 \<or> 0 \<le> rv vc)")
  case True
  then show ?thesis using clampTarget_fin[OF assms(1-3) _ assms(4,5), of d0] by blast
next
  case False
  then have "\<not> fin d0 \<or> (rv d0 = 0 \<and> rv vc < 0)" by auto
  from clampTarget_not_fin[OF assms(1) this] show ?thesis by simp
qed

text \<open>The adjoint probe moves the target by \<^verbatim>\<open>dv\<close> and back.\<close>

lemma probe_restore:
  "fin vc \<Longrightarrow> fin (vc + Fin d - Fin d) \<and> rv (vc + Fin d - Fin d) = rv vc"
  "NaN + Fin d - Fin d = NaN"
  by simp_all

lemma adaptVolConstraint_g0:
  "\<not> fne (g_cur st) (Fin 0) \<Longrightarrow>
     adaptVolConstraint pw si comm (st, vcl, vals) = Inr (st, vcl, vals)"
  by (simp add: adaptVolConstraint_def)

text \<open>The step: everything but the design vector is as before, and the target is as
  before up to the probe.\<close>

lemma secantStep_Inr:
  assumes "secantStep pw si comm (st, vcl, vals) = Inr (st', d0, vals')"
  shows "\<exists>q v. st' = st\<lparr>p_cur := q, volConstraint := v\<rparr>
           \<and> (v = volConstraint st \<or> v = volConstraint st + Fin 0.001 - Fin 0.001)"
proof (cases "constraintGradient st = ''Adjoint''")
  case True
  with assms show ?thesis
    unfolding secantStep_def Let_def
    by (auto simp: computeUpdatedTopology_Inr split: sum.splits)
next
  case False
  with assms have "st' = st"
    unfolding secantStep_def Let_def by (auto split: if_splits)
  then have "st' = st\<lparr>p_cur := p_cur st, volConstraint := volConstraint st\<rparr>" by simp
  then show ?thesis by blast
qed

lemma adaptVolConstraint_Inr:
  assumes a: "adaptVolConstraint pw si comm (st, vcl, vals) = Inr (st', vcl', vals')"
    and g: "fne (g_cur st) (Fin 0)"
  shows "\<exists>q v d0. st' = st\<lparr>p_cur := q,
                       volConstraint := clampTarget v (minVolume st) (maxVolume st) d0\<rparr>
           \<and> (v = volConstraint st \<or> v = volConstraint st + Fin 0.001 - Fin 0.001)"
proof -
  from a g obtain st1 d0 where s: "secantStep pw si comm (st, vcl, vals) = Inr (st1, d0, vals')"
    and st': "st' = st1\<lparr>volConstraint :=
                 clampTarget (volConstraint st1) (minVolume st1) (maxVolume st1) d0\<rparr>"
    by (auto simp: adaptVolConstraint_def split: sum.splits)
  from secantStep_Inr[OF s] obtain q v where
    st1: "st1 = st\<lparr>p_cur := q, volConstraint := v\<rparr>"
    and v: "v = volConstraint st \<or> v = volConstraint st + Fin 0.001 - Fin 0.001"
    by blast
  have "st' = st\<lparr>p_cur := q, volConstraint := clampTarget v (minVolume st) (maxVolume st) d0\<rparr>"
    by (simp add: st' st1)
  with v show ?thesis by blast
qed

lemma adaptVolConstraint_frame:
  assumes "adaptVolConstraint pw si comm (st, vcl, vals) = Inr (st', vcl', vals')"
  shows "\<exists>q v. st' = st\<lparr>p_cur := q, volConstraint := v\<rparr>"
proof (cases "fne (g_cur st) (Fin 0)")
  case True
  from adaptVolConstraint_Inr[OF assms True] show ?thesis by blast
next
  case False
  from adaptVolConstraint_g0[OF False, of pw si comm vcl vals] assms have "st' = st" by simp
  then have "st' = st\<lparr>p_cur := p_cur st, volConstraint := volConstraint st\<rparr>" by simp
  then show ?thesis by blast
qed

text \<open>The block keeps the invariant: the target is a NaN or within the range.\<close>

lemma adaptVolConstraint_range:
  assumes a: "adaptVolConstraint pw si comm (st, vcl, vals) = Inr (st', vcl', vals')"
    and f: "fin (minVolume st)" "fin (maxVolume st)"
    and i: "volConstraint st = NaN
            \<or> (minVolume st \<le> volConstraint st \<and> volConstraint st \<le> maxVolume st)"
  shows "volConstraint st' = NaN
         \<or> (minVolume st \<le> volConstraint st' \<and> volConstraint st' \<le> maxVolume st)"
proof (cases "fne (g_cur st) (Fin 0)")
  case False
  from adaptVolConstraint_g0[OF False, of pw si comm vcl vals] a have "st' = st" by simp
  with i show ?thesis by simp
next
  case True
  from adaptVolConstraint_Inr[OF a True] obtain q v d0 where
    st': "st' = st\<lparr>p_cur := q,
                    volConstraint := clampTarget v (minVolume st) (maxVolume st) d0\<rparr>"
    and v: "v = volConstraint st \<or> v = volConstraint st + Fin 0.001 - Fin 0.001"
    by blast
  show ?thesis
  proof (cases "volConstraint st = NaN")
    case True
    with v have "v = NaN" by auto
    then show ?thesis by (simp add: st')
  next
    case False
    with i have r: "minVolume st \<le> volConstraint st" "volConstraint st \<le> maxVolume st"
      by auto
    have fv: "fin (volConstraint st)" using between_fin[OF f r] .
    from r f fv have "rv (minVolume st) \<le> rv (maxVolume st)" by (simp add: less_eq_fin)
    then have "minVolume st \<le> maxVolume st" using f by (simp add: less_eq_fin)
    from clampTarget_range_or_NaN[OF f this, of v d0] show ?thesis by (simp add: st')
  qed
qed

text \<open>With the target within the range, the block leaves a NaN or a target at most a
  tenth of the old target away from it.\<close>

lemma adaptVolConstraint_step:
  assumes a: "adaptVolConstraint pw si comm (st, vcl, vals) = Inr (st', vcl', vals')"
    and f: "fin (minVolume st)" "fin (maxVolume st)"
    and i: "minVolume st \<le> volConstraint st" "volConstraint st \<le> maxVolume st"
  shows "volConstraint st' = NaN
         \<or> \<bar>volConstraint st' - volConstraint st\<bar> \<le> Fin 0.1 * \<bar>volConstraint st\<bar>"
proof -
  have fv: "fin (volConstraint st)" using between_fin[OF f i] .
  show ?thesis
  proof (cases "fne (g_cur st) (Fin 0)")
    case False
    from adaptVolConstraint_g0[OF False, of pw si comm vcl vals] a have "st' = st" by simp
    with fv show ?thesis by (simp add: less_eq_fin)
  next
    case True
    from adaptVolConstraint_Inr[OF a True] obtain q v d0 where
      st': "st' = st\<lparr>p_cur := q,
                      volConstraint := clampTarget v (minVolume st) (maxVolume st) d0\<rparr>"
      and v: "v = volConstraint st \<or> v = volConstraint st + Fin 0.001 - Fin 0.001"
      by blast
    from v fv have v': "fin v" "rv v = rv (volConstraint st)" by auto
    with f i fv have "minVolume st \<le> v" "v \<le> maxVolume st" by (simp_all add: less_eq_fin)
    from clampTarget_cases[OF v'(1) f this, of d0] fv show ?thesis
      by (auto simp: st' v'(2) less_eq_fin)
  qed
qed

lemma isConverged_snd_maxIterations [simp]:
  "maxIterations (snd (isConverged ct delta_f delta_p iter myPID)) = maxIterations ct"
  by (simp add: isConverged_def Let_def split: prod.splits)

lemma isConverged_not_converged:
  "\<not> fst (isConverged ct delta_f delta_p iter myPID) \<Longrightarrow> iter = 0 \<or> iter < maxIterations ct"
  using isConverged_at_limit[of iter ct delta_f delta_p myPID] by force

lemma solverCompute_frame [simp]:
  "volConstraint (solverCompute si st) = volConstraint st"
  "minVolume (solverCompute si st) = minVolume st"
  "maxVolume (solverCompute si st) = maxVolume st"
  "convergenceChecker (solverCompute si st) = convergenceChecker st"
  "constraintGradient (solverCompute si st) = constraintGradient st"
  by (simp_all add: solverCompute_def split: prod.splits)

lemma solverCompute_g:
  "g_cur (solverCompute si st) =
     (if constraintGradient st = ''Adjoint'' then fst (snd (snd (Compute_adjoint si (p_cur st))))
      else snd (snd (Compute si (p_cur st))))"
  by (simp add: solverCompute_def split: prod.splits)

lemma Optimize_iter_Inr:
  assumes "Optimize_iter pw si comm (st, iter, vcl, vals) = Inr (conv, st', iter', vcl', vals')"
  shows "iter' = iter + 1"
    and "minVolume st' = minVolume st"
    and "maxVolume st' = maxVolume st"
    and "maxIterations (convergenceChecker st') = maxIterations (convergenceChecker st)"
    and "\<not> conv \<Longrightarrow> iter = 0 \<or> iter < maxIterations (convergenceChecker st)"
    and "\<not> fne (g_cur (solverCompute si st)) (Fin 0) \<Longrightarrow>
           volConstraint st' = volConstraint st \<and> vcl' = vcl \<and> vals' = vals"
    and "fin (minVolume st) \<Longrightarrow> fin (maxVolume st) \<Longrightarrow>
         volConstraint st = NaN
           \<or> (minVolume st \<le> volConstraint st \<and> volConstraint st \<le> maxVolume st) \<Longrightarrow>
         volConstraint st' = NaN
           \<or> (minVolume st \<le> volConstraint st' \<and> volConstraint st' \<le> maxVolume st)"
    and "fin (minVolume st) \<Longrightarrow> fin (maxVolume st) \<Longrightarrow>
         minVolume st \<le> volConstraint st \<Longrightarrow> volConstraint st \<le> maxVolume st \<Longrightarrow>
         volConstraint st' = NaN
           \<or> \<bar>volConstraint st' - volConstraint st\<bar> \<le> Fin 0.1 * \<bar>volConstraint st\<bar>"
    and "fne (g_cur (solverCompute si st)) (Fin 0) \<Longrightarrow>
         \<exists>v d0. volConstraint st' = clampTarget v (minVolume st) (maxVolume st) d0
           \<and> (v = volConstraint st \<or> v = volConstraint st + Fin 0.001 - Fin 0.001)"
proof -
  define st1 where "st1 = solverCompute si (st\<lparr>f_last := f_cur st, g_last := g_cur st\<rparr>)"
  define st2 where "st2 = st1\<lparr>dvdp := snd (ComputeVolume_grad si (p_cur st1))\<rparr>"
  define st3 where "st3 = st2\<lparr>p_last := map (\<lambda>i. p_cur st2 ! i) [0..<numOptDofs st2]\<rparr>"
  have g1: "g_cur st1 = g_cur (solverCompute si st)"
    by (simp add: st1_def solverCompute_g)
  have unf: "Optimize_iter pw si comm (st, iter, vcl, vals) =
     (case adaptVolConstraint pw si comm (st3, vcl, vals) of
              Inl e \<Rightarrow> Inl e
            | Inr (st4, volConstraint_last', dgdv_vals') \<Rightarrow>
                (case computeUpdatedTopology pw si comm st4 of
                   Inl e \<Rightarrow> Inl e
                 | Inr st5 \<Rightarrow>
                     (let delta_f = SumAll comm (f_cur st5 - f_last st5);
                          delta_p = computeDiffNorm comm (p_cur st5) (p_last st5) (numOptDofs st5)
                      in case isConverged (convergenceChecker st5) delta_f delta_p iter
                                (MyPID comm) of
                           (conv, cc) \<Rightarrow>
                             Inr (conv, st5\<lparr>convergenceChecker := cc\<rparr>, iter + 1,
                                  volConstraint_last', dgdv_vals'))))"
    unfolding Optimize_iter_def prod.case Let_def st1_def st2_def st3_def ..
  from assms unf obtain st4 where
    a: "adaptVolConstraint pw si comm (st3, vcl, vals) = Inr (st4, vcl', vals')"
    by (auto simp: Let_def split: sum.splits prod.splits)
  from assms unf a obtain st5 where
    c: "computeUpdatedTopology pw si comm st4 = Inr st5"
    by (auto simp: Let_def split: sum.splits prod.splits)
  define delta_f where "delta_f = SumAll comm (f_cur st5 - f_last st5)"
  define delta_p where "delta_p = computeDiffNorm comm (p_cur st5) (p_last st5) (numOptDofs st5)"
  from assms unf a c have
    r: "conv = fst (isConverged (convergenceChecker st5) delta_f delta_p iter (MyPID comm))"
       "st' = st5\<lparr>convergenceChecker :=
                    snd (isConverged (convergenceChecker st5) delta_f delta_p iter (MyPID comm))\<rparr>"
       "iter' = iter + 1"
    by (auto simp: Let_def delta_f_def delta_p_def split: prod.splits)
  from adaptVolConstraint_frame[OF a] obtain q v where
    s4: "st4 = st3\<lparr>p_cur := q, volConstraint := v\<rparr>" by blast
  from c have s5: "st5 = st4\<lparr>p_cur := fst (volumeSearch pw si comm st4)\<rparr>"
    by (simp add: computeUpdatedTopology_Inr)
  have f3: "minVolume st3 = minVolume st" "maxVolume st3 = maxVolume st"
    "convergenceChecker st3 = convergenceChecker st" "volConstraint st3 = volConstraint st"
    "g_cur st3 = g_cur (solverCompute si st)"
    by (simp_all add: st3_def st2_def g1) (simp_all add: st1_def)
  show "iter' = iter + 1" by (rule r(3))
  show "minVolume st' = minVolume st" by (simp add: r(2) s5 s4 f3)
  show "maxVolume st' = maxVolume st" by (simp add: r(2) s5 s4 f3)
  show "maxIterations (convergenceChecker st') = maxIterations (convergenceChecker st)"
    by (simp add: r(2) s5 s4 f3)
  show "iter = 0 \<or> iter < maxIterations (convergenceChecker st)" if "\<not> conv"
    using that isConverged_not_converged[of "convergenceChecker st5" delta_f delta_p iter "MyPID comm"]
    by (simp add: r(1) s5 s4 f3)
  show "volConstraint st' = volConstraint st \<and> vcl' = vcl \<and> vals' = vals"
    if "\<not> fne (g_cur (solverCompute si st)) (Fin 0)"
  proof -
    from that have "\<not> fne (g_cur st3) (Fin 0)" by (simp add: f3)
    from adaptVolConstraint_g0[OF this, of pw si comm vcl vals] a
    have "st4 = st3" "vcl' = vcl" "vals' = vals" by simp_all
    then show ?thesis by (simp add: r(2) s5 f3)
  qed
  have v': "volConstraint st' = volConstraint st4" by (simp add: r(2) s5)
  show "volConstraint st' = NaN
           \<or> (minVolume st \<le> volConstraint st' \<and> volConstraint st' \<le> maxVolume st)"
    if "fin (minVolume st)" "fin (maxVolume st)"
       "volConstraint st = NaN
           \<or> (minVolume st \<le> volConstraint st \<and> volConstraint st \<le> maxVolume st)"
    using adaptVolConstraint_range[OF a] that by (simp add: f3 v')
  show "volConstraint st' = NaN
           \<or> \<bar>volConstraint st' - volConstraint st\<bar> \<le> Fin 0.1 * \<bar>volConstraint st\<bar>"
    if "fin (minVolume st)" "fin (maxVolume st)"
       "minVolume st \<le> volConstraint st" "volConstraint st \<le> maxVolume st"
    using adaptVolConstraint_step[OF a] that by (simp add: f3 v')
  show "\<exists>v d0. volConstraint st' = clampTarget v (minVolume st) (maxVolume st) d0
           \<and> (v = volConstraint st \<or> v = volConstraint st + Fin 0.001 - Fin 0.001)"
    if "fne (g_cur (solverCompute si st)) (Fin 0)"
  proof -
    from that have "fne (g_cur st3) (Fin 0)" by (simp add: f3)
    from adaptVolConstraint_Inr[OF a this] obtain q v d0 where
      "st4 = st3\<lparr>p_cur := q,
                    volConstraint := clampTarget v (minVolume st3) (maxVolume st3) d0\<rparr>"
      and "v = volConstraint st3 \<or> v = volConstraint st3 + Fin 0.001 - Fin 0.001"
      by blast
    then have "volConstraint st' = clampTarget v (minVolume st) (maxVolume st) d0
           \<and> (v = volConstraint st \<or> v = volConstraint st + Fin 0.001 - Fin 0.001)"
      by (simp add: v' f3)
    then show ?thesis by blast
  qed
qed

text \<open>A pass that does not report convergence leaves fewer passes to go: the convergence
  checker keeps its iteration limit, the counter goes up by one, and the checker reports
  convergence once the counter is non-zero and at the limit.\<close>

lemma Optimize_iter_decreases:
  assumes "Optimize_iter pw si comm x = Inr (False, x')"
  shows "((pw, si, comm, x'), (pw, si, comm, x))
           \<in> measure (\<lambda>(pw, si, comm, st, iter, vcl, vals).
                        nat (max 1 (maxIterations (convergenceChecker st)) - iter))"
proof -
  obtain st iter vcl vals where x: "x = (st, iter, vcl, vals)" by (metis prod_cases4)
  obtain st' iter' vcl' vals' where x': "x' = (st', iter', vcl', vals')" by (metis prod_cases4)
  from assms x x' have
    i: "Optimize_iter pw si comm (st, iter, vcl, vals) = Inr (False, st', iter', vcl', vals')"
    by simp
  from Optimize_iter_Inr(1,4,5)[OF i] show ?thesis
    by (auto simp: x x')
qed

termination Optimize_loop
proof (relation "measure (\<lambda>(pw, si, comm, st, iter, vcl, vals).
                   nat (max 1 (maxIterations (convergenceChecker st)) - iter))")
  show "wf (measure (\<lambda>(pw, si, comm, st, iter, vcl, vals).
                   nat (max 1 (maxIterations (convergenceChecker st)) - iter)))"
    by simp
next
  fix pw :: "double \<Rightarrow> double \<Rightarrow> double" and si comm
    and x :: "Optimizer_OC \<times> int \<times> double \<times> double list"
    and r :: "bool \<times> Optimizer_OC \<times> int \<times> double \<times> double list"
    and conv and x' :: "Optimizer_OC \<times> int \<times> double \<times> double list"
  assume "Optimize_iter pw si comm x = Inr r" "(conv, x') = r" "\<not> conv"
  then have "Optimize_iter pw si comm x = Inr (False, x')" by auto
  then show "((pw, si, comm, x'), (pw, si, comm, x))
           \<in> measure (\<lambda>(pw, si, comm, st, iter, vcl, vals).
                        nat (max 1 (maxIterations (convergenceChecker st)) - iter))"
    by (rule Optimize_iter_decreases)
qed

termination Optimize_starts
proof (relation "measure (\<lambda>(pw, si, comm, st, iter, vcl, vals).
                   nat (max 1 (maxIterations (convergenceChecker st)) - iter))")
  show "wf (measure (\<lambda>(pw, si, comm, st, iter, vcl, vals).
                   nat (max 1 (maxIterations (convergenceChecker st)) - iter)))"
    by simp
next
  fix pw :: "double \<Rightarrow> double \<Rightarrow> double" and si comm
    and x :: "Optimizer_OC \<times> int \<times> double \<times> double list"
    and r :: "bool \<times> Optimizer_OC \<times> int \<times> double \<times> double list"
    and conv and x' :: "Optimizer_OC \<times> int \<times> double \<times> double list"
  assume "Optimize_iter pw si comm x = Inr r" "(conv, x') = r" "\<not> conv"
  then have "Optimize_iter pw si comm x = Inr (False, x')" by auto
  then show "((pw, si, comm, x'), (pw, si, comm, x))
           \<in> measure (\<lambda>(pw, si, comm, st, iter, vcl, vals).
                        nat (max 1 (maxIterations (convergenceChecker st)) - iter))"
    by (rule Optimize_iter_decreases)
qed

declare Optimize_loop.simps [simp del]
declare Optimize_starts.simps [simp del]

lemma Optimize_starts_self: "x \<in> set (Optimize_starts pw si comm x)"
  by (subst Optimize_starts.simps) (rule list.set_intros(1))

lemma Optimize_starts_next:
  "Optimize_iter pw si comm x = Inr (False, x') \<Longrightarrow>
     set (Optimize_starts pw si comm x') \<subseteq> set (Optimize_starts pw si comm x)"
  by (subst (2) Optimize_starts.simps) auto

lemma Optimize_starts_cases:
  assumes "y \<in> set (Optimize_starts pw si comm x)"
  shows "y = x \<or> (\<exists>x'. Optimize_iter pw si comm x = Inr (False, x')
                      \<and> y \<in> set (Optimize_starts pw si comm x'))"
proof -
  define rest where "rest = (case Optimize_iter pw si comm x of
            Inl e \<Rightarrow> []
          | Inr (conv, x') \<Rightarrow> if conv then [] else Optimize_starts pw si comm x')"
  have "Optimize_starts pw si comm x = x # rest"
    unfolding rest_def by (rule Optimize_starts.simps)
  with assms have "y = x \<or> y \<in> set rest" by (metis set_ConsD)
  then show ?thesis
  proof
    assume "y = x"
    then show ?thesis ..
  next
    assume y: "y \<in> set rest"
    show ?thesis
    proof (cases "Optimize_iter pw si comm x")
      case (Inl e)
      then have "rest = []" by (simp add: rest_def)
      with y show ?thesis by simp
    next
      case (Inr r)
      obtain conv x' where r: "r = (conv, x')" by (cases r)
      show ?thesis
      proof (cases conv)
        case True
        with Inr r have "rest = []" by (simp add: rest_def)
        with y show ?thesis by simp
      next
        case False
        with Inr r have "rest = Optimize_starts pw si comm x'" by (simp add: rest_def)
        with y Inr r False show ?thesis by auto
      qed
    qed
  qed
qed

text \<open>When \<open>g = 0\<close> at the start of every pass, every pass starts with the target of the
  first, and so does the state the loop returns.\<close>

lemma Optimize_starts_g0:
  "\<forall>y\<in>set (Optimize_starts pw si comm x). \<not> fne (g_cur (solverCompute si (fst y))) (Fin 0) \<Longrightarrow>
     \<forall>y\<in>set (Optimize_starts pw si comm x). volConstraint (fst y) = volConstraint (fst x)"
proof (induction pw si comm x rule: Optimize_starts.induct)
  case (1 pw si comm x)
  obtain st iter vcl vals where x: "x = (st, iter, vcl, vals)" by (metis prod_cases4)
  show ?case
  proof
    fix y
    assume y: "y \<in> set (Optimize_starts pw si comm x)"
    from Optimize_starts_cases[OF y] show "volConstraint (fst y) = volConstraint (fst x)"
    proof
      assume "y = x"
      then show ?thesis by simp
    next
      assume "\<exists>x'. Optimize_iter pw si comm x = Inr (False, x')
                      \<and> y \<in> set (Optimize_starts pw si comm x')"
      then obtain x' where i: "Optimize_iter pw si comm x = Inr (False, x')"
        and y': "y \<in> set (Optimize_starts pw si comm x')" by blast
      obtain st1 iter1 vcl1 vals1 where x': "x' = (st1, iter1, vcl1, vals1)"
        by (metis prod_cases4)
      have g: "\<not> fne (g_cur (solverCompute si st)) (Fin 0)"
        using "1.prems" Optimize_starts_self[of x pw si comm] by (auto simp: x)
      from Optimize_iter_Inr(6)[OF i[unfolded x x'] g]
      have v: "volConstraint (fst x') = volConstraint (fst x)" by (simp add: x x')
      have "\<forall>y\<in>set (Optimize_starts pw si comm x'). \<not> fne (g_cur (solverCompute si (fst y))) (Fin 0)"
        using "1.prems" Optimize_starts_next[OF i] by blast
      from "1.IH"[OF i refl _ this] y' v show ?thesis by simp
    qed
  qed
qed

lemma Optimize_loop_g0:
  "Optimize_loop pw si comm x = Inr st' \<Longrightarrow>
   \<forall>y\<in>set (Optimize_starts pw si comm x). \<not> fne (g_cur (solverCompute si (fst y))) (Fin 0) \<Longrightarrow>
     volConstraint st' = volConstraint (fst x)"
proof (induction pw si comm x rule: Optimize_loop.induct)
  case (1 pw si comm x)
  obtain st iter vcl vals where x: "x = (st, iter, vcl, vals)" by (metis prod_cases4)
  from "1.prems"(1) obtain conv st1 iter1 vcl1 vals1 where
    i: "Optimize_iter pw si comm x = Inr (conv, st1, iter1, vcl1, vals1)"
    by (subst (asm) Optimize_loop.simps) (auto split: sum.splits)
  have g: "\<not> fne (g_cur (solverCompute si st)) (Fin 0)"
    using "1.prems"(2) Optimize_starts_self[of x pw si comm] by (auto simp: x)
  from Optimize_iter_Inr(6)[OF i[unfolded x] g] have v: "volConstraint st1 = volConstraint st"
    by simp
  show ?case
  proof (cases conv)
    case True
    with "1.prems"(1) i have "st' = st1"
      by (subst (asm) Optimize_loop.simps) simp
    with v x show ?thesis by simp
  next
    case False
    with "1.prems"(1) i have l: "Optimize_loop pw si comm (st1, iter1, vcl1, vals1) = Inr st'"
      by (subst (asm) Optimize_loop.simps) simp
    from i False have "Optimize_iter pw si comm x = Inr (False, st1, iter1, vcl1, vals1)"
      by simp
    from Optimize_starts_next[OF this] "1.prems"(2)
    have "\<forall>y\<in>set (Optimize_starts pw si comm (st1, iter1, vcl1, vals1)).
            \<not> fne (g_cur (solverCompute si (fst y))) (Fin 0)"
      by blast
    from "1.IH"[OF i refl False l this] v x show ?thesis by simp
  qed
qed




lemma Optimize_prologue_Inr:
  assumes "Optimize_prologue pw si comm st = Inr st5"
  shows "volConstraint st5 = volConstraint st \<and> minVolume st5 = minVolume st
           \<and> maxVolume st5 = maxVolume st"
proof -
  define st1 where "st1 = solverCompute si st"
  define st2 where "st2 = st1\<lparr>p_last := map (\<lambda>i. p_cur st1 ! i) [0..<numOptDofs st1]\<rparr>"
  define st3 where "st3 = st2\<lparr>dvdp := snd (ComputeVolume_grad si (p_cur st2))\<rparr>"
  have unf: "Optimize_prologue pw si comm st =
     (case computeUpdatedTopology pw si comm st3 of
           Inl e \<Rightarrow> Inl e
         | Inr st4 \<Rightarrow>
             (let pnorm = computeNorm comm (p_cur st4) (numOptDofs st4);
                  global_f = SumAll comm (f_cur st4)
              in Inr (st4\<lparr>convergenceChecker :=
                            initNorm (convergenceChecker st4) global_f pnorm\<rparr>)))"
    unfolding Optimize_prologue_def Let_def st1_def st2_def st3_def ..
  from assms unf obtain st4 where c: "computeUpdatedTopology pw si comm st3 = Inr st4"
    by (auto split: sum.splits)
  from assms unf c have "st5 = st4\<lparr>convergenceChecker :=
       initNorm (convergenceChecker st4) (SumAll comm (f_cur st4))
         (computeNorm comm (p_cur st4) (numOptDofs st4))\<rparr>"
    by (simp add: Let_def)
  moreover from c obtain q4 where "st4 = st3\<lparr>p_cur := q4\<rparr>"
    by (auto simp: computeUpdatedTopology_Inr)
  ultimately show ?thesis
    by (simp add: st3_def st2_def st1_def)
qed

lemma Optimize_Inr:
  "Optimize pw si comm st = Inr st' \<longleftrightarrow>
     (\<exists>st5. Optimize_prologue pw si comm st = Inr st5
           \<and> Optimize_loop pw si comm (st5, 0, volConstraint st5, []) = Inr st')"
  by (auto simp: Optimize_def split: sum.splits)

section \<open>The running-average criteria\<close>

lemma Fin_plus_Fin [simp]: "Fin a + Fin b = Fin (a + b)"
  by (auto simp: double_defs)

lemma Fin_minus_Fin [simp]: "Fin a - Fin b = Fin (a - b)"
  by (auto simp: double_defs)

lemma RelRunningDF_step:
  "snd (passed (RelRunningDF c f0 (map Fin xs) (Fin (sum_list (drop (length xs - nave) xs))) nave)
          (Fin d) dp)
     = RelRunningDF c f0 (map Fin (xs @ [d]))
         (Fin (sum_list (drop (length (xs @ [d]) - nave) (xs @ [d])))) nave"
proof (cases "length xs < nave")
  case True
  then show ?thesis by (simp add: Let_def)
next
  case False
  then have ge: "nave \<le> length xs" by simp
  show ?thesis
  proof (cases "nave = 0")
    case True
    then show ?thesis by (simp add: Let_def nth_append)
  next
    case pos: False
    define k where "k = length xs - nave"
    have k: "k < length xs" using ge pos by (simp add: k_def)
    have s: "sum_list (drop k xs) = xs ! k + sum_list (drop (Suc k) xs)"
      using Cons_nth_drop_Suc[OF k, symmetric] by simp
    have i: "Suc (length xs) - nave = Suc k" using ge by (simp add: k_def)
    show ?thesis
      using ge pos k s by (simp add: Let_def nth_append k_def[symmetric] i)
  qed
qed

lemma RelRunningDF_feed:
  "feed (RelRunningDF c f0 (map Fin xs) (Fin (sum_list (drop (length xs - nave) xs))) nave)
        (map (\<lambda>d. (Fin (fst d), snd d)) ds)
     = RelRunningDF c f0 (map Fin (xs @ map fst ds))
         (Fin (sum_list (drop (length (xs @ map fst ds) - nave) (xs @ map fst ds)))) nave"
proof (induction ds arbitrary: xs)
  case Nil
  then show ?case by simp
next
  case (Cons d ds)
  have "feed (RelRunningDF c f0 (map Fin xs) (Fin (sum_list (drop (length xs - nave) xs))) nave)
             (map (\<lambda>d. (Fin (fst d), snd d)) (d # ds))
          = feed (RelRunningDF c f0 (map Fin (xs @ [fst d]))
                   (Fin (sum_list (drop (length (xs @ [fst d]) - nave) (xs @ [fst d])))) nave)
                 (map (\<lambda>d. (Fin (fst d), snd d)) ds)"
    unfolding list.map feed.simps fst_conv snd_conv RelRunningDF_step ..
  also have "\<dots> = RelRunningDF c f0 (map Fin ((xs @ [fst d]) @ map fst ds))
         (Fin (sum_list (drop (length ((xs @ [fst d]) @ map fst ds) - nave)
            ((xs @ [fst d]) @ map fst ds)))) nave"
    by (rule Cons.IH)
  finally show ?case by simp
qed

text \<open>On finite deltas RelRunningDF keeps the sum of the most recent \<open>min n 10\<close> of them:
  on overflow it subtracts the entry at index \<open>size - 1 - nave\<close>, the oldest one.\<close>

lemma RelRunningDF_window:
  "runningDF_of (feed (new_RelRunningDF conValue) (map (\<lambda>d. (Fin (fst d), snd d)) ds))
     = Fin (sum_list (drop (length ds - 10) (map fst ds)))"
  using RelRunningDF_feed[of conValue "Fin 0" "[]" 10 ds] by (simp add: new_RelRunningDF_def)

lemma AbsRunningDF_step:
  assumes "1 \<le> nave"
  shows "snd (passed (AbsRunningDF c (map Fin xs)
                 (Fin (sum_list xs - sum_list (take (length xs - nave) (tl xs)))) nave) (Fin d) dp)
     = AbsRunningDF c (map Fin (xs @ [d]))
         (Fin (sum_list (xs @ [d]) - sum_list (take (length (xs @ [d]) - nave) (tl (xs @ [d])))))
         nave"
proof (cases "length xs < nave")
  case True
  then show ?thesis by (simp add: Let_def)
next
  case False
  define m where "m = length xs - nave"
  from False assms have ne: "xs \<noteq> []" and m: "m < length xs" and ml: "m \<le> length (tl xs)"
    by (auto simp: m_def)
  have i: "Suc (length xs) - nave = Suc m" using False by (simp add: m_def)
  have tl: "tl (xs @ [d]) = tl xs @ [d]" using ne by simp
  have len: "m < length (tl (xs @ [d]))" using m ne by (simp add: tl)
  have "take (Suc m) (tl (xs @ [d])) = take m (tl (xs @ [d])) @ [tl (xs @ [d]) ! m]"
    by (rule take_Suc_conv_app_nth[OF len])
  moreover have "take m (tl (xs @ [d])) = take m (tl xs)" using ml by (simp add: tl)
  moreover have "tl (xs @ [d]) ! m = (xs @ [d]) ! Suc m"
    using len by (rule nth_tl)
  ultimately have t: "sum_list (take (Suc m) (tl (xs @ [d])))
                        = sum_list (take m (tl xs)) + (xs @ [d]) ! Suc m"
    by simp
  have gt: "nave < Suc (length xs)" using False by simp
  have sm: "Suc m < length (xs @ [d])" using m by simp
  have nth: "(map Fin xs @ [Fin d]) ! Suc m = Fin ((xs @ [d]) ! Suc m)"
    using nth_map[OF sm, of Fin] by simp
  show ?thesis
    using gt by (simp add: Let_def i t nth m_def[symmetric] del: tl_append2 nth_append_length
        add: algebra_simps)
qed

lemma AbsRunningDF_feed:
  assumes "1 \<le> nave"
  shows "feed (AbsRunningDF c (map Fin xs)
                 (Fin (sum_list xs - sum_list (take (length xs - nave) (tl xs)))) nave)
              (map (\<lambda>d. (Fin (fst d), snd d)) ds)
     = AbsRunningDF c (map Fin (xs @ map fst ds))
         (Fin (sum_list (xs @ map fst ds)
            - sum_list (take (length (xs @ map fst ds) - nave) (tl (xs @ map fst ds))))) nave"
proof (induction ds arbitrary: xs)
  case Nil
  then show ?case by simp
next
  case (Cons d ds)
  have "feed (AbsRunningDF c (map Fin xs)
                 (Fin (sum_list xs - sum_list (take (length xs - nave) (tl xs)))) nave)
            (map (\<lambda>d. (Fin (fst d), snd d)) (d # ds))
          = feed (AbsRunningDF c (map Fin (xs @ [fst d]))
                   (Fin (sum_list (xs @ [fst d])
                      - sum_list (take (length (xs @ [fst d]) - nave) (tl (xs @ [fst d]))))) nave)
                 (map (\<lambda>d. (Fin (fst d), snd d)) ds)"
    unfolding list.map feed.simps fst_conv snd_conv AbsRunningDF_step[OF assms] ..
  also have "\<dots> = AbsRunningDF c (map Fin ((xs @ [fst d]) @ map fst ds))
         (Fin (sum_list ((xs @ [fst d]) @ map fst ds)
            - sum_list (take (length ((xs @ [fst d]) @ map fst ds) - nave)
                 (tl ((xs @ [fst d]) @ map fst ds))))) nave"
    by (rule Cons.IH)
  finally show ?case by simp
qed

text \<open>AbsRunningDF on overflow subtracts the entry at index \<open>size - nave\<close>, one place too
  late: every delta but the first is subtracted once it is the tenth most recent, so on
  finite deltas the running sum is the first delta plus the nine most recent ones (for
  more than ten calls), not the sum of the ten most recent.\<close>

lemma AbsRunningDF_window:
  "runningDF_of (feed (new_AbsRunningDF conValue) (map (\<lambda>d. (Fin (fst d), snd d)) ds))
     = Fin (sum_list (map fst ds) - sum_list (take (length ds - 10) (tl (map fst ds))))"
  using AbsRunningDF_feed[of 10 conValue "[]" ds] by (simp add: new_AbsRunningDF_def)

text \<open>
  Claim C4, at a failing input.  AbsRunningDF subtracts the entry at index \<open>size - nave\<close>
  on overflow, which is the tenth most recent delta and still inside the window, not the
  evicted one.  After the eleven deltas \<open>1, 2, ..., 11\<close> its running sum is
  \<open>66 - 2 = 64\<close>; the sum of the ten most recent deltas \<open>2, ..., 11\<close> is 65, which is what
  RelRunningDF holds after the same calls.
\<close>

theorem C4_AbsRunningDF_window_off_by_one:
  "runningDF_of (feed (new_AbsRunningDF (Fin 1))
      (map (\<lambda>d. (Fin d, Fin 0)) [1, 2, 3, 4, 5, 6, 7, 8, 9, 10, 11])) = Fin 64
   \<and> runningDF_of (feed (new_RelRunningDF (Fin 1))
      (map (\<lambda>d. (Fin d, Fin 0)) [1, 2, 3, 4, 5, 6, 7, 8, 9, 10, 11])) = Fin 65
   \<and> sum_list (drop (11 - 10) [1, 2, 3, 4, 5, 6, 7, 8, 9, 10, 11 :: real]) = 65"
  by (simp add: new_AbsRunningDF_def new_RelRunningDF_def Let_def)


section \<open>The objective callback of the NLopt adapter: results\<close>

text \<open>A square \<^verbatim>\<open>pow(x - x, 2)\<close> is the zero or a NaN, and so is a sum of such squares.\<close>

lemma self_diff_sq: "(a - a) * (a - a) = Fin 0 \<or> (a - a) * (a - a) = NaN"
  by (cases a) (simp_all add: double_defs)

lemma foldl_zero_or_NaN:
  "\<forall>t\<in>set ts. t = Fin 0 \<or> t = NaN \<Longrightarrow> acc = Fin 0 \<or> acc = NaN \<Longrightarrow>
     foldl (+) acc ts = Fin 0 \<or> foldl (+) acc ts = NaN"
proof (induction ts arbitrary: acc)
  case Nil
  then show ?case by simp
next
  case (Cons t ts)
  from Cons.prems have "acc + t = Fin 0 \<or> acc + t = NaN" by auto
  with Cons.IH[of "acc + t"] Cons.prems(1) show ?case by simp
qed

lemma self_diff_norm:
  "dsum (map (\<lambda>i. (x ! i - map (\<lambda>i. x ! i) [0..<n] ! i) * (x ! i - map (\<lambda>i. x ! i) [0..<n] ! i))
       [0..<n]) = Fin 0
   \<or> dsum (map (\<lambda>i. (x ! i - map (\<lambda>i. x ! i) [0..<n] ! i)
                  * (x ! i - map (\<lambda>i. x ! i) [0..<n] ! i))
       [0..<n]) = NaN"
proof -
  have "map (\<lambda>i. (x ! i - map (\<lambda>i. x ! i) [0..<n] ! i) * (x ! i - map (\<lambda>i. x ! i) [0..<n] ! i))
          [0..<n]
        = map (\<lambda>i. (x ! i - x ! i) * (x ! i - x ! i)) [0..<n]"
    by (rule map_cong) auto
  moreover have "\<forall>t\<in>set (map (\<lambda>i. (x ! i - x ! i) * (x ! i - x ! i)) [0..<n]). t = Fin 0 \<or> t = NaN"
    using self_diff_sq by auto
  ultimately show ?thesis
    unfolding dsum_def using foldl_zero_or_NaN[of _ "Fin 0"] by simp
qed

text \<open>The callback copies \<open>x\<close> into \<open>p_last\<close> before it takes the norm of \<open>x - p_last\<close>:
  the local sum of squares is the zero (or a NaN, when \<open>x\<close> holds an infinity or a NaN)
  whatever the optimizer held before, and on one rank the design delta handed to the
  convergence checker is zero.\<close>

lemma evaluate_backend_delta_p:
  "\<exists>s. (s = Fin 0 \<or> s = NaN)
      \<and> snd (snd (snd (evaluate_backend_deltas si comm st x)))
          = (if SumAll comm s > Fin 0 then dsqrt (SumAll comm s) else Fin 0)"
proof -
  define s where "s = dsum (map (\<lambda>i. (x ! i - map (\<lambda>i. x ! i) [0..<numOptDofs st] ! i)
                                      * (x ! i - map (\<lambda>i. x ! i) [0..<numOptDofs st] ! i))
                             [0..<numOptDofs st])"
  have "s = Fin 0 \<or> s = NaN" unfolding s_def by (rule self_diff_norm)
  moreover have "snd (snd (snd (evaluate_backend_deltas si comm st x)))
          = (if SumAll comm s > Fin 0 then dsqrt (SumAll comm s) else Fin 0)"
    by (simp add: evaluate_backend_deltas_def Let_def computeDiffNorm_def s_def
        split: prod.splits)
  ultimately show ?thesis by blast
qed

lemma evaluate_backend_delta_p_serial:
  "snd (snd (snd (evaluate_backend_deltas si serialComm st x))) = Fin 0"
  using evaluate_backend_delta_p[of si serialComm st x]
  by (auto simp: serialComm_def less_fin)

text \<open>
  Claim C5, at a failing input.  After a first callback at the design \<open>[0]\<close>, the
  callback at the design \<open>[1]\<close> hands the convergence checker a design delta of 0, and
  the absolute design-change criterion with threshold \<open>1/1000\<close> reports convergence (the
  library is asked to stop); the Euclidean norm of the difference of the two designs
  is 1.
\<close>

theorem C5_design_delta_is_zero:
  "(case evaluate_backend (ex_si (Fin 0)) serialComm ex_nlopt [Fin 0] of
      (f1, grad1, st1) \<Rightarrow>
        snd (snd (snd (evaluate_backend_deltas (ex_si (Fin 0)) serialComm st1 [Fin 1]))) = Fin 0
        \<and> forced_stop (snd (snd (evaluate_backend (ex_si (Fin 0)) serialComm st1 [Fin 1]))) = True)
   \<and> computeDiffNorm serialComm [Fin 1] [Fin 0] 1 = Fin 1"
  by (simp add: evaluate_backend_def evaluate_backend_deltas_def computeDiffNorm_def
      isConverged_def Let_def ex_nlopt_def ex_si_def serialComm_def dsum_def double_defs)


section \<open>The configuration evaluated\<close>

text \<open>The arithmetic on doubles given by their values.\<close>

lemma Fin_times_Fin:
  "a * b \<noteq> 0 \<Longrightarrow> Fin a * Fin b = Fin (a * b)"
  "0 \<le> a \<Longrightarrow> 0 \<le> b \<Longrightarrow> Fin a * Fin b = Fin (a * b)"
  by (auto simp: double_defs)

lemma Fin_divide_Fin:
  "a \<noteq> 0 \<Longrightarrow> b \<noteq> 0 \<Longrightarrow> Fin a / Fin b = Fin (a / b)"
  "0 \<le> a \<Longrightarrow> 0 < b \<Longrightarrow> Fin a / Fin b = Fin (a / b)"
  by (auto simp: double_defs)

lemma Fin_uminus: "a \<noteq> 0 \<Longrightarrow> - Fin a = Fin (- a)" "- Fin 0 = NegZero"
  by (simp_all add: double_defs)

lemma Fin_abs: "\<bar>Fin a\<bar> = Fin \<bar>a\<bar>"
  by (simp add: double_defs)

lemma Fin_less: "(Fin a < Fin b) = (a < b)" "(Fin a \<le> Fin b) = (a \<le> b)"
  by (simp_all add: double_defs)

lemma Fin_feq: "feq (Fin a) (Fin b) = (a = b)" "fne (Fin a) (Fin b) = (a \<noteq> b)"
  by (simp_all add: double_defs)

lemma Fin_dsqrt: "0 \<le> a \<Longrightarrow> dsqrt (Fin a) = Fin (sqrt a)"
  by (simp add: double_defs)

lemma zero_arith:
  "a < 0 \<Longrightarrow> Fin a * Fin 0 = NegZero"
  "NegZero / Fin 1 = NegZero"
  "NegZero + Fin a = Fin a"
  "NegZero / Fin 0 = NaN"
  "Fin 0 / Fin 0 = NaN"
  "a > 0 \<Longrightarrow> Fin a / Fin 0 = PInf"
  "a < 0 \<Longrightarrow> Fin a / Fin 0 = MInf"
  by (simp_all add: double_defs)

lemmas Fin_simps = Fin_times_Fin Fin_divide_Fin Fin_uminus Fin_abs Fin_less Fin_feq Fin_dsqrt
  zero_arith dsum_def

lemmas ex_defs = ex_si_def ex_si_const_def ex_cc_def ex_oc_def serialComm_def ex_pow_def
lemmas oc_defs = computeUpdatedTopology_def volumeSearch_def updateTopology_def
  updateEntry_def unclampedEntry_def limitEntry_def Let_def Optimize_def Optimize_prologue_def
  Optimize_iter_def solverCompute_def adaptVolConstraint_def secantStep_def clampTarget_def
  computeNorm_def computeDiffNorm_def initNorm_def isConverged_def






lemma ex_Optimize_iter_g0:
  "\<exists>st'. Optimize_iter ex_pow (ex_si_const (Fin 0)) serialComm
            (ex_oc (Fin 1), 0, Fin (2 / 5), [])
            = Inr (False, st', 1, Fin (2 / 5), [])"
  apply (simp add: ex_defs oc_defs Fin_simps)
  apply (subst bisection_first.simps)
  apply (simp add: ex_defs oc_defs Fin_simps)
  done


lemma ex_Optimize_g0:
  "\<exists>st'. Optimize ex_pow (ex_si_const (Fin 0)) serialComm (ex_oc (Fin 1)) = Inr st'"
  apply (simp add: ex_defs oc_defs Fin_simps)
  apply (subst bisection_first.simps)
  apply (simp add: ex_defs oc_defs Fin_simps)
  apply (subst Optimize_loop.simps)
  apply (simp add: ex_defs oc_defs Fin_simps)
  apply (subst bisection_first.simps)
  apply (simp add: ex_defs oc_defs Fin_simps)
  apply (subst Optimize_loop.simps)
  apply (simp add: ex_defs oc_defs Fin_simps)
  apply (subst bisection_first.simps)
  apply (simp add: ex_defs oc_defs Fin_simps)
  done


text \<open>A run started with the target \<open>2/5\<close> within the range \<open>[1/10, 1]\<close>, with the
  secondary constraint the constant 1: the first pass moves the target by the fixed step
  to \<open>401/1000\<close>; in the second pass the slope is \<open>(1 - 1)/(401/1000 - 2/5) = 0\<close>, the step
  \<open>-1/0\<close> the negative infinity, the limited step \<open>-inf/inf\<close> a NaN, and neither clamp
  replaces the NaN target.  The run returns with it.\<close>

lemma ex_Optimize_NaN:
  "\<exists>st'. Optimize ex_pow (ex_si_const (Fin 1)) serialComm (ex_oc (Fin 1)) = Inr st'
          \<and> volConstraint st' = NaN"
  apply (simp add: ex_defs oc_defs Fin_simps)
  apply (subst bisection_first.simps)
  apply (simp add: ex_defs oc_defs Fin_simps)
  apply (subst Optimize_loop.simps)
  apply (simp add: ex_defs oc_defs Fin_simps)
  apply (subst bisection_first.simps)
  apply (simp add: ex_defs oc_defs Fin_simps)
  apply (subst Optimize_loop.simps)
  apply (simp add: ex_defs oc_defs Fin_simps)
  apply (subst bisection_first.simps)
  apply (simp add: ex_defs oc_defs Fin_simps)
  done


section \<open>The optimality-criteria optimizer: results\<close>









text \<open>
  Claim C8.  An outer iteration in which the solver returns \<open>g = 0\<close> (the comparison
  \<^verbatim>\<open>g != 0.0\<close> is false) leaves \<open>volConstraint\<close> unchanged.  Hence, when \<open>g = 0\<close> at every outer
  iteration of a run of \<open>Optimize\<close>, every outer iteration starts with the \<open>volConstraint\<close>
  the run started with, and a run that returns ends with it.
\<close>

theorem C8_g_zero_keeps_volConstraint:
  "(feq (g_cur (solverCompute si st)) (Fin 0) \<longrightarrow>
      Optimize_iter pw si comm (st, iter, vcl, vals) = Inr (conv, st', iter', vcl', vals') \<longrightarrow>
        volConstraint st' = volConstraint st)
   \<and> (Optimize_prologue pw si comm st = Inr st0 \<longrightarrow>
      (\<forall>y\<in>set (Optimize_starts pw si comm (st0, 0, volConstraint st0, [])).
          feq (g_cur (solverCompute si (fst y))) (Fin 0)) \<longrightarrow>
        (\<forall>y\<in>set (Optimize_starts pw si comm (st0, 0, volConstraint st0, [])).
            volConstraint (fst y) = volConstraint st)
        \<and> (\<forall>st''. Optimize pw si comm st = Inr st'' \<longrightarrow> volConstraint st'' = volConstraint st))"
proof (intro conjI impI allI)
  assume g: "feq (g_cur (solverCompute si st)) (Fin 0)"
    and i: "Optimize_iter pw si comm (st, iter, vcl, vals) = Inr (conv, st', iter', vcl', vals')"
  from g have "\<not> fne (g_cur (solverCompute si st)) (Fin 0)" by (simp add: fne_def)
  from Optimize_iter_Inr(6)[OF i this] show "volConstraint st' = volConstraint st" by simp
next
  assume p: "Optimize_prologue pw si comm st = Inr st0"
    and "\<forall>y\<in>set (Optimize_starts pw si comm (st0, 0, volConstraint st0, [])).
              feq (g_cur (solverCompute si (fst y))) (Fin 0)"
  then have z: "\<forall>y\<in>set (Optimize_starts pw si comm (st0, 0, volConstraint st0, [])).
              \<not> fne (g_cur (solverCompute si (fst y))) (Fin 0)"
    by (simp add: fne_def)
  from Optimize_starts_g0[OF z] Optimize_prologue_Inr[OF p]
  show "\<forall>y\<in>set (Optimize_starts pw si comm (st0, 0, volConstraint st0, [])).
            volConstraint (fst y) = volConstraint st"
    by simp
next
  fix st''
  assume p: "Optimize_prologue pw si comm st = Inr st0"
    and "\<forall>y\<in>set (Optimize_starts pw si comm (st0, 0, volConstraint st0, [])).
              feq (g_cur (solverCompute si (fst y))) (Fin 0)"
    and r: "Optimize pw si comm st = Inr st''"
  then have z: "\<forall>y\<in>set (Optimize_starts pw si comm (st0, 0, volConstraint st0, [])).
              \<not> fne (g_cur (solverCompute si (fst y))) (Fin 0)"
    by (simp add: fne_def)
  from r p have l: "Optimize_loop pw si comm (st0, 0, volConstraint st0, []) = Inr st''"
    unfolding Optimize_Inr by simp
  from Optimize_loop_g0[OF l z] Optimize_prologue_Inr[OF p]
  show "volConstraint st'' = volConstraint st" by simp
qed

theorem C8_g_zero_keeps_volConstraint_witness:
  "feq (g_cur (solverCompute (ex_si_const (Fin 0)) (ex_oc (Fin 1)))) (Fin 0)
   \<and> (case Optimize_iter ex_pow (ex_si_const (Fin 0)) serialComm
             (ex_oc (Fin 1), 0, Fin (2 / 5), []) of
        Inl e \<Rightarrow> False
      | Inr r \<Rightarrow> volConstraint (fst (snd r)) = Fin (2 / 5))
   \<and> (case Optimize_prologue ex_pow (ex_si_const (Fin 0)) serialComm (ex_oc (Fin 1)) of
        Inl e \<Rightarrow> False
      | Inr st0 \<Rightarrow>
          list_all (\<lambda>y. feq (g_cur (solverCompute (ex_si_const (Fin 0)) (fst y))) (Fin 0))
            (Optimize_starts ex_pow (ex_si_const (Fin 0)) serialComm
               (st0, 0, volConstraint st0, []))
          \<and> list_all (\<lambda>y. volConstraint (fst y) = Fin (2 / 5))
              (Optimize_starts ex_pow (ex_si_const (Fin 0)) serialComm
               (st0, 0, volConstraint st0, [])))
   \<and> (case Optimize ex_pow (ex_si_const (Fin 0)) serialComm (ex_oc (Fin 1)) of
        Inl e \<Rightarrow> False
      | Inr st' \<Rightarrow> volConstraint st' = Fin (2 / 5))"
proof -
  have g: "feq (g_cur (solverCompute (ex_si_const (Fin 0)) s)) (Fin 0)" for s
    by (simp add: solverCompute_g ex_si_const_def ex_si_def Fin_simps)
  note g0 = g[of "ex_oc (Fin 1)"]
  from ex_Optimize_iter_g0 obtain s1 where
    i: "Optimize_iter ex_pow (ex_si_const (Fin 0)) serialComm
          (ex_oc (Fin 1), 0, Fin (2 / 5), [])
          = Inr (False, s1, 1, Fin (2 / 5), [])"
    by blast
  from ex_Optimize_g0 obtain s2 where
    r: "Optimize ex_pow (ex_si_const (Fin 0)) serialComm (ex_oc (Fin 1)) = Inr s2"
    by blast
  from r obtain s0 where
    p: "Optimize_prologue ex_pow (ex_si_const (Fin 0)) serialComm (ex_oc (Fin 1)) = Inr s0"
    unfolding Optimize_Inr by blast
  have v: "volConstraint (ex_oc (Fin 1)) = Fin (2 / 5)" by (simp add: ex_oc_def)
  have z: "\<forall>y\<in>set (Optimize_starts ex_pow (ex_si_const (Fin 0)) serialComm
                     (s0, 0, volConstraint s0, [])).
             feq (g_cur (solverCompute (ex_si_const (Fin 0)) (fst y))) (Fin 0)"
    by (simp add: g)
  from C8_g_zero_keeps_volConstraint[of "ex_si_const (Fin 0)" "ex_oc (Fin 1)" ex_pow serialComm 0
      "Fin (2 / 5)" "[]" False s1 1 "Fin (2 / 5)" "[]" s0] g0 i r p z
  have "volConstraint s1 = Fin (2 / 5)
        \<and> list_all (\<lambda>y. volConstraint (fst y) = Fin (2 / 5))
            (Optimize_starts ex_pow (ex_si_const (Fin 0)) serialComm
               (s0, 0, volConstraint s0, []))
        \<and> volConstraint s2 = Fin (2 / 5)"
    by (simp add: v list_all_iff)
  with g0 i r p z show ?thesis by (simp add: list_all_iff)
qed

end
